theory Spec2Isabelle
  imports Main "HOL-Library.Word"
begin

section \<open>JavaScript strings\<close>

text \<open>
  A JavaScript string is a sequence of 16-bit code units. The regular expressions of
  \<^verbatim>\<open>index.js\<close> carry no \<^verbatim>\<open>u\<close> flag, so they too work on code units.
  \<open>str\<close> embeds an ASCII literal of the source.
\<close>

type_synonym jschar = "16 word"
type_synonym jsstring = "jschar list"

definition ch :: "char \<Rightarrow> jschar" where
  "ch c = of_char c"

definition str :: "string \<Rightarrow> jsstring" where
  "str s = map ch s"

text \<open>\<^verbatim>\<open>String(n)\<close> for an integral number such as \<^verbatim>\<open>Date.now()\<close>: decimal digits,
  with a minus sign for a negative one.\<close>

definition digit :: "nat \<Rightarrow> jschar" where
  "digit d = of_nat (48 + d)"

fun digits :: "nat \<Rightarrow> jsstring" where
  "digits n = (if n < 10 then [digit n] else digits (n div 10) @ [digit (n mod 10)])"

declare digits.simps [simp del]

definition num_to_string :: "int \<Rightarrow> jsstring" where
  "num_to_string n = (if n < 0 then ch CHR ''-'' # digits (nat (- n)) else digits (nat n))"

text \<open>Reading a decimal numeral back, as Ghostscript reads a resolution argument.\<close>

definition digit_value :: "jschar \<Rightarrow> nat" where
  "digit_value c = unat c - 48"

definition parse_decimal :: "jsstring \<Rightarrow> nat" where
  "parse_decimal s = foldl (\<lambda>a c. 10 * a + digit_value c) 0 s"

section \<open>Compression profile table\<close>

text \<open>
  \<^verbatim>\<open>const compressionSettings = { little: {...}, middle: {...}, high: {...} };\<close>
  The table is an object literal, so its prototype is \<^verbatim>\<open>Object.prototype\<close>, and
  \<^verbatim>\<open>compressionSettings[key]\<close> finds the table's own three properties first and the
  members of \<^verbatim>\<open>Object.prototype\<close> after them.
\<close>

record settings =
  level :: jsstring
  imageResolution :: jsstring

definition compressionSettings :: "(jsstring \<times> settings) list" where
  "compressionSettings =
    [(str ''little'', \<lparr>level = str ''/screen'', imageResolution = str ''72''\<rparr>),
     (str ''middle'', \<lparr>level = str ''/ebook'', imageResolution = str ''150''\<rparr>),
     (str ''high'', \<lparr>level = str ''/printer'', imageResolution = str ''300''\<rparr>)]"

definition object_prototype_keys :: "jsstring list" where
  "object_prototype_keys =
    [str ''constructor'', str ''__defineGetter__'', str ''__defineSetter__'',
     str ''hasOwnProperty'', str ''__lookupGetter__'', str ''__lookupSetter__'',
     str ''isPrototypeOf'', str ''propertyIsEnumerable'', str ''toString'',
     str ''valueOf'', str ''__proto__'', str ''toLocaleString'']"

text \<open>
  The value of \<^verbatim>\<open>compressionSettings[key]\<close>: \<open>Undefined\<close>, one of the table's
  profiles, or a member of \<^verbatim>\<open>Object.prototype\<close> (a function, or the prototype
  object itself for \<^verbatim>\<open>__proto__\<close>), which is truthy and has neither a
  \<^verbatim>\<open>level\<close> nor an \<^verbatim>\<open>imageResolution\<close> property.
\<close>

datatype lookup = Undefined | Profile settings | Inherited

definition lookup_level :: "jsstring \<Rightarrow> lookup" where
  "lookup_level key =
    (case map_of compressionSettings key of
       Some s \<Rightarrow> Profile s
     | None \<Rightarrow> if key \<in> set object_prototype_keys then Inherited else Undefined)"

fun truthy :: "lookup \<Rightarrow> bool" where
  "truthy Undefined = False"
| "truthy (Profile s) = True"
| "truthy Inherited = True"

text \<open>\<^verbatim>\<open>const compressionLevel = req.body.compressionLevel || 'middle';\<close>
  The field is absent (\<open>None\<close>) or a string; the empty string is falsy.\<close>

definition compressionLevel :: "jsstring option \<Rightarrow> jsstring" where
  "compressionLevel field =
    (case field of
       None \<Rightarrow> str ''middle''
     | Some l \<Rightarrow> if l = [] then str ''middle'' else l)"

section \<open>Filename sanitizer\<close>

subsection \<open>Library functions on strings and paths\<close>

text \<open>\<^verbatim>\<open>String.prototype.trim\<close> removes the white space and line terminators of
  ECMAScript at both ends.\<close>

definition is_js_whitespace :: "jschar \<Rightarrow> bool" where
  "is_js_whitespace c \<longleftrightarrow>
     c \<in> set [0x09, 0x0A, 0x0B, 0x0C, 0x0D, 0x20, 0xA0, 0x1680, 0x2028, 0x2029, 0x202F,
              0x205F, 0x3000, 0xFEFF]
     \<or> (0x2000 \<le> c \<and> c \<le> 0x200A)"

definition trim :: "jsstring \<Rightarrow> jsstring" where
  "trim s = rev (dropWhile is_js_whitespace (rev (dropWhile is_js_whitespace s)))"

definition startsWith :: "jsstring \<Rightarrow> jsstring \<Rightarrow> bool" where
  "startsWith s p \<longleftrightarrow> take (length p) s = p"

definition endsWith :: "jsstring \<Rightarrow> jsstring \<Rightarrow> bool" where
  "endsWith s p \<longleftrightarrow> length p \<le> length s \<and> drop (length s - length p) s = p"

text \<open>\<^verbatim>\<open>s.slice(a, b)\<close> for indices \<open>0 \<le> a\<close> and \<open>0 \<le> b\<close>.\<close>

definition slice :: "jsstring \<Rightarrow> int \<Rightarrow> int \<Rightarrow> jsstring" where
  "slice s a b = take (nat (b - a)) (drop (nat a) s)"

text \<open>
  \<^verbatim>\<open>path.extname\<close> of Node.js (POSIX): one scan of the path from its last code unit
  to its first, which stops (\<^verbatim>\<open>break\<close>) at the separator before the last component.
  The second argument of \<open>extname_scan\<close> counts the code units still to be read.
\<close>

record extname_state =
  startDot :: int
  startPart :: int
  endPos :: int
  matchedSlash :: bool
  preDotState :: int

fun extname_scan :: "jsstring \<Rightarrow> nat \<Rightarrow> extname_state \<Rightarrow> extname_state" where
  "extname_scan path 0 s = s"
| "extname_scan path (Suc i) s =
    (if path ! i = ch CHR ''/'' then
       (if \<not> matchedSlash s then s\<lparr>startPart := int i + 1\<rparr>
        else extname_scan path i s)
     else
       (let s1 = (if endPos s = - 1 then s\<lparr>endPos := int i + 1, matchedSlash := False\<rparr>
                  else s);
            s2 = (if path ! i = ch CHR ''.'' then
                    (if startDot s1 = - 1 then s1\<lparr>startDot := int i\<rparr>
                     else if preDotState s1 \<noteq> 1 then s1\<lparr>preDotState := 1\<rparr>
                     else s1)
                  else if startDot s1 \<noteq> - 1 then s1\<lparr>preDotState := - 1\<rparr>
                  else s1)
        in extname_scan path i s2))"

definition extname :: "jsstring \<Rightarrow> jsstring" where
  "extname path =
    (let s = extname_scan path (length path)
               \<lparr>startDot = - 1, startPart = 0, endPos = - 1, matchedSlash = True,
                preDotState = 0\<rparr>
     in if startDot s = - 1 \<or> endPos s = - 1 \<or> preDotState s = 0
           \<or> (preDotState s = 1 \<and> startDot s = endPos s - 1 \<and> startDot s = startPart s + 1)
        then []
        else slice path (startDot s) (endPos s))"

text \<open>
  \<^verbatim>\<open>path.basename(path, suffix)\<close> of Node.js (POSIX). With a non-empty suffix no
  longer than the path, the scan also matches the suffix from its last code unit
  (\<open>extIdx\<close>); otherwise it only finds the last component.
\<close>

record basename_state =
  bStart :: int
  bEnd :: int
  bMatchedSlash :: bool
  extIdx :: int
  firstNonSlashEnd :: int

fun basename_suffix_scan ::
  "jsstring \<Rightarrow> jsstring \<Rightarrow> nat \<Rightarrow> basename_state \<Rightarrow> basename_state" where
  "basename_suffix_scan path suffix 0 s = s"
| "basename_suffix_scan path suffix (Suc i) s =
    (if path ! i = ch CHR ''/'' then
       (if \<not> bMatchedSlash s then s\<lparr>bStart := int i + 1\<rparr>
        else basename_suffix_scan path suffix i s)
     else
       (let s1 = (if firstNonSlashEnd s = - 1
                  then s\<lparr>bMatchedSlash := False, firstNonSlashEnd := int i + 1\<rparr>
                  else s);
            s2 = (if extIdx s1 \<ge> 0 then
                    (if path ! i = suffix ! nat (extIdx s1) then
                       (if extIdx s1 - 1 = - 1
                        then s1\<lparr>extIdx := extIdx s1 - 1, bEnd := int i\<rparr>
                        else s1\<lparr>extIdx := extIdx s1 - 1\<rparr>)
                     else s1\<lparr>extIdx := - 1, bEnd := firstNonSlashEnd s1\<rparr>)
                  else s1)
        in basename_suffix_scan path suffix i s2))"

fun basename_plain_scan :: "jsstring \<Rightarrow> nat \<Rightarrow> basename_state \<Rightarrow> basename_state" where
  "basename_plain_scan path 0 s = s"
| "basename_plain_scan path (Suc i) s =
    (if path ! i = ch CHR ''/'' then
       (if \<not> bMatchedSlash s then s\<lparr>bStart := int i + 1\<rparr>
        else basename_plain_scan path i s)
     else if bEnd s = - 1
       then basename_plain_scan path i (s\<lparr>bMatchedSlash := False, bEnd := int i + 1\<rparr>)
     else basename_plain_scan path i s)"

definition basename :: "jsstring \<Rightarrow> jsstring \<Rightarrow> jsstring" where
  "basename path suffix =
    (let init = \<lparr>bStart = 0, bEnd = - 1, bMatchedSlash = True,
                 extIdx = int (length suffix) - 1, firstNonSlashEnd = - 1\<rparr>
     in if length suffix > 0 \<and> length suffix \<le> length path then
          (if suffix = path then []
           else
             (let s = basename_suffix_scan path suffix (length path) init;
                  e = (if bStart s = bEnd s then firstNonSlashEnd s
                       else if bEnd s = - 1 then int (length path)
                       else bEnd s)
              in slice path (bStart s) e))
        else
          (let s = basename_plain_scan path (length path) init
           in if bEnd s = - 1 then [] else slice path (bStart s) (bEnd s)))"

subsection \<open>The output base name\<close>

text \<open>The character class \<^verbatim>\<open>[a-zA-Z0-9_-]\<close>.\<close>

definition name_char :: "jschar \<Rightarrow> bool" where
  "name_char c \<longleftrightarrow>
     (ch CHR ''a'' \<le> c \<and> c \<le> ch CHR ''z'') \<or> (ch CHR ''A'' \<le> c \<and> c \<le> ch CHR ''Z'')
     \<or> (ch CHR ''0'' \<le> c \<and> c \<le> ch CHR ''9'') \<or> c = ch CHR ''_'' \<or> c = ch CHR ''-''"

text \<open>\<^verbatim>\<open>.replace(/[^a-zA-Z0-9_-]/g, '_')\<close>\<close>

definition replace_unsafe :: "jsstring \<Rightarrow> jsstring" where
  "replace_unsafe s = map (\<lambda>c. if name_char c then c else ch CHR ''_'') s"

text \<open>\<^verbatim>\<open>.replace(/__+/g, '_')\<close>: every maximal run of two or more underscores becomes
  one underscore.\<close>

fun collapse_underscores :: "jsstring \<Rightarrow> jsstring" where
  "collapse_underscores (a # b # s) =
    (if a = ch CHR ''_'' \<and> b = ch CHR ''_'' then collapse_underscores (b # s)
     else a # collapse_underscores (b # s))"
| "collapse_underscores s = s"

text \<open>\<^verbatim>\<open>.replace(/^_+|_+$/g, '')\<close>: the underscores at the start and at the end go.\<close>

definition strip_underscores :: "jsstring \<Rightarrow> jsstring" where
  "strip_underscores s =
    rev (dropWhile (\<lambda>c. c = ch CHR ''_'') (rev (dropWhile (\<lambda>c. c = ch CHR ''_'') s)))"

text \<open>Lines 562 to 574 of the handler: the base name before sanitizing.\<close>

definition baseName :: "jsstring \<Rightarrow> jsstring" where
  "baseName originalname =
    (let originalFileName = trim originalname;
         originalFileExtension = extname originalFileName;
         b0 = basename originalFileName originalFileExtension;
         b1 = (if b0 = [] \<and> startsWith originalFileName (str ''.'')
               then str ''file_from_extension''
               else if endsWith originalFileName (str ''.'') \<and> originalFileExtension = str ''.''
               then take (length originalFileName - 1) originalFileName
               else b0)
     in if b1 = [] then str ''untitled'' else b1)"

definition sanitizedBaseName :: "jsstring \<Rightarrow> jsstring" where
  "sanitizedBaseName originalname =
    strip_underscores (collapse_underscores (replace_unsafe (baseName originalname)))"

definition finalBaseName :: "jsstring \<Rightarrow> jsstring" where
  "finalBaseName originalname =
    (if sanitizedBaseName originalname = [] then str ''compressed_document''
     else sanitizedBaseName originalname)"

section \<open>The request pipeline\<close>

subsection \<open>Requests, the file system and the outside world\<close>

text \<open>An uploaded file as multer hands it over: the client's name for it, the declared
  content type and the bytes.\<close>

record upload =
  originalname :: jsstring
  mimetype :: jsstring
  content :: "8 word list"

text \<open>A multipart request to \<^verbatim>\<open>POST /compress-pdf\<close>: the file field \<^verbatim>\<open>pdfFile\<close>
  and the text field \<^verbatim>\<open>compressionLevel\<close>, each optional.\<close>

record request =
  pdfFile :: "upload option"
  levelField :: "jsstring option"

text \<open>The file system is the set of paths at which a file exists.\<close>

type_synonym filesystem = "jsstring set"

text \<open>
  What the handler does not decide, one value per request: the two readings of
  \<^verbatim>\<open>Date.now()\<close> (in multer's \<^verbatim>\<open>filename\<close> callback and in the handler), the
  result of the Ghostscript subprocess (\<^verbatim>\<open>error\<close> is null after exit status zero, and
  carries a message after a non-zero status or a failed launch), whether Ghostscript
  left a file at the output path, and whether the client disconnects during the
  download.
\<close>

record world =
  upload_now :: int
  handler_now :: int
  gs_error :: "jsstring option"
  gs_stderr :: jsstring
  gs_writes_output :: bool
  client_disconnects :: bool

text \<open>What a request does to the outside: the subprocess it starts, the files it
  unlinks, the JSON response it sends (status and message), the download it attempts
  (path, filename hint and how the transfer ends), and the error page that express
  sends when a middleware fails before the handler (status).\<close>

datatype transfer = Sent | Aborted | Missing

datatype effect =
    Exec jsstring
  | Unlink jsstring
  | Json nat jsstring
  | Download jsstring jsstring transfer
  | ErrorPage nat

subsection \<open>Staging the upload\<close>

text \<open>
  \<^verbatim>\<open>upload.single('pdfFile')\<close> runs before the handler. busboy reduces the file name
  that the client sent to what follows its last slash or backslash, and to the empty
  string when that is \<^verbatim>\<open>.\<close> or \<^verbatim>\<open>..\<close>; multer skips a file part whose name is
  then empty, so the handler finds no \<^verbatim>\<open>req.file\<close>.
\<close>

definition busboy_basename :: "jsstring \<Rightarrow> jsstring" where
  "busboy_basename path =
    (let base = rev (takeWhile (\<lambda>c. c \<noteq> ch CHR ''/'' \<and> c \<noteq> ch (CHR 0x5C)) (rev path))
     in if base = str ''..'' \<or> base = str ''.'' then [] else base)"

text \<open>
  multer's disk storage: \<^verbatim>\<open>filename\<close> replaces every code unit outside
  \<^verbatim>\<open>[a-zA-Z0-9._-]\<close> by an underscore and puts the time before it; the file is written
  to \<^verbatim>\<open>path.join('uploads/', filename)\<close>, which is the concatenation, since the file
  name holds no separator.
\<close>

definition safe_char :: "jschar \<Rightarrow> bool" where
  "safe_char c \<longleftrightarrow> name_char c \<or> c = ch CHR ''.''"

definition safeOriginalName :: "jsstring \<Rightarrow> jsstring" where
  "safeOriginalName name = map (\<lambda>c. if safe_char c then c else ch CHR ''_'') name"

definition multer_filename :: "int \<Rightarrow> jsstring \<Rightarrow> jsstring" where
  "multer_filename now name = num_to_string now @ str ''-'' @ safeOriginalName name"

definition upload_path :: "int \<Rightarrow> jsstring \<Rightarrow> jsstring" where
  "upload_path now name = str ''uploads/'' @ multer_filename now name"

text \<open>
  The longest file name, in bytes, that the file systems of Linux take. The staged
  name is ASCII, so its bytes are its code units. Opening a longer name fails with
  \<^verbatim>\<open>ENAMETOOLONG\<close>; multer passes the error on, the handler does not run, and the
  error handler of express answers 500 with an error page.
\<close>

definition NAME_MAX :: nat where
  "NAME_MAX = 255"

text \<open>
  What \<^verbatim>\<open>upload.single\<close> makes of a request: no file for the handler, a failed
  write, or \<^verbatim>\<open>req.file\<close>: the upload under the name that busboy left, and the path
  at which it was written. Apart from the length of the name, the write is taken to
  succeed.
\<close>

datatype staging = NoFile | WriteFailed | Staged upload jsstring

definition stage :: "world \<Rightarrow> request \<Rightarrow> staging" where
  "stage w req =
    (case pdfFile req of
       None \<Rightarrow> NoFile
     | Some part \<Rightarrow>
         (let name = busboy_basename (originalname part) in
          if name = [] then NoFile
          else if NAME_MAX < length (multer_filename (upload_now w) name) then WriteFailed
          else Staged (part\<lparr>originalname := name\<rparr>) (upload_path (upload_now w) name)))"

subsection \<open>The Ghostscript command\<close>

definition outputFileName :: "int \<Rightarrow> jsstring \<Rightarrow> jsstring" where
  "outputFileName now name =
    str ''compressed-'' @ num_to_string now @ str ''-'' @ finalBaseName name @ str ''.pdf''"

text \<open>\<^verbatim>\<open>path.join('compressed_pdfs/', outputFileName)\<close>; the file name holds no
  separator.\<close>

definition outputPath :: "int \<Rightarrow> jsstring \<Rightarrow> jsstring" where
  "outputPath now name = str ''compressed_pdfs/'' @ outputFileName now name"

text \<open>\<^verbatim>\<open>${settings.level}\<close> and \<^verbatim>\<open>${settings.imageResolution}\<close> in the template: a
  member of \<^verbatim>\<open>Object.prototype\<close> has neither property, and \<^verbatim>\<open>undefined\<close> is
  printed by name.\<close>

definition template_text :: "lookup \<Rightarrow> (settings \<Rightarrow> jsstring) \<Rightarrow> jsstring" where
  "template_text v field = (case v of Profile s \<Rightarrow> field s | _ \<Rightarrow> str ''undefined'')"

text \<open>
  The template literal of lines 596 to 603. A backslash before a line break is a line
  continuation and adds nothing to the string; each following line starts with 21
  spaces.
\<close>

definition dquote :: jschar where
  "dquote = ch (CHR 0x22)"

definition indent :: jsstring where
  "indent = replicate 21 (ch CHR '' '')"

definition gsCommand :: "lookup \<Rightarrow> jsstring \<Rightarrow> jsstring \<Rightarrow> jsstring" where
  "gsCommand settings outPath inputPath =
    str ''gs -sDEVICE=pdfwrite -dCompatibilityLevel=1.4 '' @ indent
    @ str ''-dPDFSETTINGS='' @ template_text settings level @ str '' '' @ indent
    @ str ''-dNOPAUSE -dQUIET -dBATCH '' @ indent
    @ str ''-dDetectDuplicateImages=true '' @ indent
    @ str ''-dColorImageResolution='' @ template_text settings imageResolution @ str '' '' @ indent
    @ str ''-dGrayImageResolution='' @ template_text settings imageResolution @ str '' '' @ indent
    @ str ''-dMonoImageResolution='' @ template_text settings imageResolution @ str '' '' @ indent
    @ str ''-sOutputFile='' @ [dquote] @ outPath @ [dquote] @ str '' ''
    @ [dquote] @ inputPath @ [dquote]"

subsection \<open>The handler of \<^verbatim>\<open>POST /compress-pdf\<close>\<close>

definition no_file_message :: jsstring where
  "no_file_message = str ''No PDF file uploaded.''"

definition invalid_level_message :: jsstring where
  "invalid_level_message = str ''Invalid compression level. Choose from: little, middle, high.''"

text \<open>\<^verbatim>\<open>`Error compressing PDF. Ghostscript stderr: ${stderr || error.message}`\<close>\<close>

definition error_message :: "jsstring \<Rightarrow> jsstring \<Rightarrow> jsstring" where
  "error_message stderr message =
    str ''Error compressing PDF. Ghostscript stderr: ''
    @ (if stderr \<noteq> [] then stderr else message)"

text \<open>
  The handler, given \<^verbatim>\<open>req.file\<close> (the upload and the path it was staged at) and
  \<^verbatim>\<open>req.body.compressionLevel\<close>. It returns its effects in the order in which it
  starts them, and the file system they leave. \<^verbatim>\<open>exec\<close> runs Ghostscript, which may
  write the output file; \<^verbatim>\<open>fs.unlink\<close> removes a path and only logs a failure;
  \<^verbatim>\<open>res.download\<close> sends the file when it exists and calls back in every case.
\<close>

definition handler ::
  "world \<Rightarrow> (upload \<times> jsstring) option \<Rightarrow> jsstring option \<Rightarrow> filesystem
    \<Rightarrow> effect list \<times> filesystem" where
  "handler w file field fs =
    (case file of
       None \<Rightarrow> ([Json 400 no_file_message], fs)
     | Some (f, path) \<Rightarrow>
         (let settings = lookup_level (compressionLevel field) in
          if \<not> truthy settings then
            ([Unlink path, Json 400 invalid_level_message], fs - {path})
          else
            (let inputPath = path;
                 outName = outputFileName (handler_now w) (originalname f);
                 outPath = outputPath (handler_now w) (originalname f);
                 cmd = gsCommand settings outPath inputPath;
                 fs1 = (if gs_writes_output w then insert outPath fs else fs);
                 fs2 = fs1 - {inputPath}
             in case gs_error w of
                  Some message \<Rightarrow>
                    ([Exec cmd, Unlink inputPath, Unlink outPath,
                      Json 500 (error_message (gs_stderr w) message)],
                     fs2 - {outPath})
                | None \<Rightarrow>
                    (let t = (if outPath \<notin> fs2 then Missing
                              else if client_disconnects w then Aborted
                              else Sent)
                     in ([Exec cmd, Unlink inputPath, Download outPath outName t,
                          Unlink outPath],
                         fs2 - {outPath})))))"

text \<open>
  The pipeline from the point at which multer has accepted the upload: \<open>req\<close> is the
  request as the handler sees it (\<^verbatim>\<open>req.file\<close> under the name that busboy left, and
  the level field), the upload is written to its staged path, and the handler runs.
\<close>

definition compress_pdf :: "world \<Rightarrow> request \<Rightarrow> filesystem \<Rightarrow> effect list \<times> filesystem" where
  "compress_pdf w req fs =
    (case pdfFile req of
       None \<Rightarrow> handler w None (levelField req) fs
     | Some f \<Rightarrow>
         (let p = upload_path (upload_now w) (originalname f)
          in handler w (Some (f, p)) (levelField req) (insert p fs)))"

text \<open>
  The route \<^verbatim>\<open>POST /compress-pdf\<close> for a request as the client sends it:
  \<^verbatim>\<open>upload.single\<close>, then the handler unless the write has failed.
\<close>

definition post_compress_pdf ::
  "world \<Rightarrow> request \<Rightarrow> filesystem \<Rightarrow> effect list \<times> filesystem" where
  "post_compress_pdf w req fs =
    (case stage w req of
       NoFile \<Rightarrow> handler w None (levelField req) fs
     | WriteFailed \<Rightarrow> ([ErrorPage 500], fs)
     | Staged f p \<Rightarrow> handler w (Some (f, p)) (levelField req) (insert p fs))"

fun is_exec :: "effect \<Rightarrow> bool" where
  "is_exec (Exec c) = True"
| "is_exec e = False"

fun is_download :: "effect \<Rightarrow> bool" where
  "is_download (Download p n t) = True"
| "is_download e = False"

fun status_of :: "effect \<Rightarrow> nat option" where
  "status_of (Json code message) = Some code"
| "status_of (ErrorPage code) = Some code"
| "status_of e = None"

subsection \<open>How the shell splits the command\<close>

text \<open>
  \<^verbatim>\<open>exec(gsCommand, ...)\<close> hands the string to \<^verbatim>\<open>/bin/sh -c\<close>, which splits it into
  the words that Ghostscript receives as its arguments. The model covers the part of
  the shell's grammar that a command built from plain characters, spaces and double
  quotes needs: outside double quotes a space ends a word, a double quote opens or
  closes a quoted stretch of the current word, and letters, digits and
  \<^verbatim>\<open>_ - . / =\<close> stand for themselves. Any other code unit may mean something to the
  shell (an expansion, a second command, a redirection), and a command that holds one
  has no reading in this model (\<open>None\<close>), as has a command whose quote is left open.
\<close>

definition space :: jschar where
  "space = ch CHR '' ''"

definition sh_plain :: "jschar \<Rightarrow> bool" where
  "sh_plain c \<longleftrightarrow> name_char c \<or> c = ch CHR ''.'' \<or> c = ch CHR ''/'' \<or> c = ch CHR ''=''"

record sh_state =
  done_words :: "jsstring list"
  current :: "jsstring option"
  in_quotes :: bool

definition current_word :: "sh_state \<Rightarrow> jsstring" where
  "current_word s = (case current s of None \<Rightarrow> [] | Some w \<Rightarrow> w)"

definition sh_step :: "sh_state \<Rightarrow> jschar \<Rightarrow> sh_state option" where
  "sh_step s c =
    (if c = dquote then
       Some (s\<lparr>current := Some (current_word s), in_quotes := \<not> in_quotes s\<rparr>)
     else if sh_plain c \<or> (c = space \<and> in_quotes s) then
       Some (s\<lparr>current := Some (current_word s @ [c])\<rparr>)
     else if c = space then
       Some (s\<lparr>done_words := done_words s @ (case current s of None \<Rightarrow> [] | Some w \<Rightarrow> [w]),
               current := None\<rparr>)
     else None)"

fun sh_scan :: "sh_state \<Rightarrow> jsstring \<Rightarrow> sh_state option" where
  "sh_scan s [] = Some s"
| "sh_scan s (c # cs) = (case sh_step s c of None \<Rightarrow> None | Some s' \<Rightarrow> sh_scan s' cs)"

definition sh_words :: "jsstring \<Rightarrow> jsstring list option" where
  "sh_words cmd =
    (case sh_scan \<lparr>done_words = [], current = None, in_quotes = False\<rparr> cmd of
       None \<Rightarrow> None
     | Some s \<Rightarrow>
         if in_quotes s then None
         else Some (done_words s @ (case current s of None \<Rightarrow> [] | Some w \<Rightarrow> [w])))"

text \<open>The argument list that the specification gives for the external tool, for a
  profile, an output path and an input path.\<close>

definition gs_arguments :: "settings \<Rightarrow> jsstring \<Rightarrow> jsstring \<Rightarrow> jsstring list" where
  "gs_arguments s outPath inputPath =
    [str ''gs'', str ''-sDEVICE=pdfwrite'', str ''-dCompatibilityLevel=1.4'',
     str ''-dPDFSETTINGS='' @ level s,
     str ''-dNOPAUSE'', str ''-dQUIET'', str ''-dBATCH'',
     str ''-dDetectDuplicateImages=true'',
     str ''-dColorImageResolution='' @ imageResolution s,
     str ''-dGrayImageResolution='' @ imageResolution s,
     str ''-dMonoImageResolution='' @ imageResolution s,
     str ''-sOutputFile='' @ outPath,
     inputPath]"

subsection \<open>The first revision of the server\<close>

text \<open>
  Lines 1 to 512 of \<^verbatim>\<open>index.js\<close> hold an earlier revision of the same server; the
  current one starts at line 513. The two differ in how they name the staged upload,
  how they sanitize the name of the output file, and in what they do after a failed
  subprocess or a failed download. The earlier revision is modelled here for
  comparison.
\<close>

text \<open>\<^verbatim>\<open>file.originalname.replace(/\s+/g, "_")\<close>: every maximal run of white space
  becomes one underscore; \<^verbatim>\<open>\s\<close> is the white space that \<^verbatim>\<open>trim\<close> removes. The
  staged path is the concatenation for a file name without a separator.\<close>

function replace_whitespace_runs :: "jsstring \<Rightarrow> jsstring" where
  "replace_whitespace_runs [] = []"
| "replace_whitespace_runs (c # s) =
    (if is_js_whitespace c
     then ch CHR ''_'' # replace_whitespace_runs (dropWhile is_js_whitespace s)
     else c # replace_whitespace_runs s)"
  by pat_completeness auto
termination
  by (relation "measure length") (auto simp: length_dropWhile_le less_Suc_eq_le)

definition upload_path_v1 :: "int \<Rightarrow> jsstring \<Rightarrow> jsstring" where
  "upload_path_v1 now name =
    str ''uploads/'' @ num_to_string now @ str ''-'' @ replace_whitespace_runs name"

text \<open>\<^verbatim>\<open>.replace(/[^a-zA-Z0-9.]/g, "_").replace(/\.pdf$/i, "")\<close>\<close>

definition alnum_or_dot :: "jschar \<Rightarrow> bool" where
  "alnum_or_dot c \<longleftrightarrow>
     (ch CHR ''a'' \<le> c \<and> c \<le> ch CHR ''z'') \<or> (ch CHR ''A'' \<le> c \<and> c \<le> ch CHR ''Z'')
     \<or> (ch CHR ''0'' \<le> c \<and> c \<le> ch CHR ''9'') \<or> c = ch CHR ''.''"

definition ends_with_pdf :: "jsstring \<Rightarrow> bool" where
  "ends_with_pdf s \<longleftrightarrow>
     4 \<le> length s
     \<and> s ! (length s - 4) = ch CHR ''.''
     \<and> s ! (length s - 3) \<in> {ch CHR ''p'', ch CHR ''P''}
     \<and> s ! (length s - 2) \<in> {ch CHR ''d'', ch CHR ''D''}
     \<and> s ! (length s - 1) \<in> {ch CHR ''f'', ch CHR ''F''}"

definition originalNameSanitized :: "jsstring \<Rightarrow> jsstring" where
  "originalNameSanitized name =
    (let s = map (\<lambda>c. if alnum_or_dot c then c else ch CHR ''_'') name
     in if ends_with_pdf s then take (length s - 4) s else s)"

definition outputFileName_v1 :: "int \<Rightarrow> jsstring \<Rightarrow> jsstring" where
  "outputFileName_v1 now name =
    str ''compressed-'' @ num_to_string now @ str ''-'' @ originalNameSanitized name
    @ str ''.pdf''"

text \<open>
  The earlier handler. After a failed subprocess it unlinks the input only. When the
  download fails before the response headers are sent (the file is missing), it
  answers 500; it unlinks the output after the download in every case.
\<close>

definition handler_v1 ::
  "world \<Rightarrow> (upload \<times> jsstring) option \<Rightarrow> jsstring option \<Rightarrow> filesystem
    \<Rightarrow> effect list \<times> filesystem" where
  "handler_v1 w file field fs =
    (case file of
       None \<Rightarrow> ([Json 400 no_file_message], fs)
     | Some (f, path) \<Rightarrow>
         (let settings = lookup_level (compressionLevel field) in
          if \<not> truthy settings then
            ([Unlink path, Json 400 invalid_level_message], fs - {path})
          else
            (let inputPath = path;
                 outName = outputFileName_v1 (handler_now w) (originalname f);
                 outPath = str ''compressed_pdfs/'' @ outName;
                 cmd = gsCommand settings outPath inputPath;
                 fs1 = (if gs_writes_output w then insert outPath fs else fs);
                 fs2 = fs1 - {inputPath}
             in case gs_error w of
                  Some message \<Rightarrow>
                    ([Exec cmd, Unlink inputPath,
                      Json 500 (str ''Error compressing PDF: ''
                                @ (if gs_stderr w \<noteq> [] then gs_stderr w else message))],
                     fs2)
                | None \<Rightarrow>
                    (if outPath \<notin> fs2 then
                       ([Exec cmd, Unlink inputPath, Download outPath outName Missing,
                         Json 500 (str ''Error sending the compressed file.''),
                         Unlink outPath],
                        fs2 - {outPath})
                     else
                       ([Exec cmd, Unlink inputPath,
                         Download outPath outName
                           (if client_disconnects w then Aborted else Sent),
                         Unlink outPath],
                        fs2 - {outPath})))))"

definition compress_pdf_v1 :: "world \<Rightarrow> request \<Rightarrow> filesystem \<Rightarrow> effect list \<times> filesystem" where
  "compress_pdf_v1 w req fs =
    (case pdfFile req of
       None \<Rightarrow> handler_v1 w None (levelField req) fs
     | Some f \<Rightarrow>
         (let p = upload_path_v1 (upload_now w) (originalname f)
          in handler_v1 w (Some (f, p)) (levelField req) (insert p fs)))"

subsection \<open>An example request\<close>

text \<open>An example request, used to instantiate the theorems below.\<close>

definition example_upload :: upload where
  "example_upload =
    \<lparr>originalname = str ''my report (final).PDF'', mimetype = str ''application/pdf'',
     content = [0x25, 0x50, 0x44, 0x46]\<rparr>"

definition example_request :: request where
  "example_request = \<lparr>pdfFile = Some example_upload, levelField = Some (str ''high'')\<rparr>"

definition example_world :: world where
  "example_world =
    \<lparr>upload_now = 1700000000000, handler_now = 1700000000002, gs_error = None,
     gs_stderr = [], gs_writes_output = True, client_disconnects = False\<rparr>"

section \<open>The profile table's levels\<close>

lemma lookup_little:
  "lookup_level (str ''little'') = Profile \<lparr>level = str ''/screen'', imageResolution = str ''72''\<rparr>"
  by (simp add: lookup_level_def compressionSettings_def str_def ch_def)

lemma lookup_middle:
  "lookup_level (str ''middle'') = Profile \<lparr>level = str ''/ebook'', imageResolution = str ''150''\<rparr>"
  by (simp add: lookup_level_def compressionSettings_def str_def ch_def)

lemma lookup_high:
  "lookup_level (str ''high'') = Profile \<lparr>level = str ''/printer'', imageResolution = str ''300''\<rparr>"
  by (simp add: lookup_level_def compressionSettings_def str_def ch_def)

lemma lookup_other:
  assumes "key \<notin> set (map fst compressionSettings)"
    and "key \<notin> set object_prototype_keys"
  shows "lookup_level key = Undefined"
proof -
  have "map_of compressionSettings key = None"
    using assms(1) by (simp add: map_of_eq_None_iff)
  then show ?thesis
    using assms(2) by (simp add: lookup_level_def)
qed

lemma parse_72: "parse_decimal (str ''72'') = 72"
  by (simp add: parse_decimal_def digit_value_def str_def ch_def)

lemma parse_150: "parse_decimal (str ''150'') = 150"
  by (simp add: parse_decimal_def digit_value_def str_def ch_def)

lemma parse_300: "parse_decimal (str ''300'') = 300"
  by (simp add: parse_decimal_def digit_value_def str_def ch_def)

text \<open>
  Claim C1, as the code has it. The claim names the levels \<open>low\<close>, \<open>medium\<close>, \<open>high\<close>
  and the default \<open>medium\<close>; the table's keys are \<open>little\<close>, \<open>middle\<close>, \<open>high\<close> and
  the default is \<open>middle\<close>, so a lookup of \<open>low\<close> finds nothing.
\<close>

theorem C1_low_is_not_a_level:
  "lookup_level (str ''low'') = Undefined \<and> lookup_level (str ''medium'') = Undefined
   \<and> compressionLevel None \<noteq> str ''medium''"
  by (simp add: lookup_level_def compressionSettings_def object_prototype_keys_def
      compressionLevel_def str_def ch_def)

text \<open>
  Claim C1, amended: the table has exactly the three levels \<open>little\<close>, \<open>middle\<close>,
  \<open>high\<close>; their lookups return three distinct profiles with the directives
  \<open>/screen\<close>, \<open>/ebook\<close>, \<open>/printer\<close> and the resolutions 72 < 150 < 300; a key that
  is none of the three and no member of \<open>Object.prototype\<close> (such as \<open>bogus\<close>) is
  not found; and a request without a level field gets the level \<open>middle\<close>.
\<close>

theorem C1_profile_table:
  "map fst compressionSettings = [str ''little'', str ''middle'', str ''high'']
   \<and> (\<exists>p1 p2 p3.
         lookup_level (str ''little'') = Profile p1
       \<and> lookup_level (str ''middle'') = Profile p2
       \<and> lookup_level (str ''high'') = Profile p3
       \<and> p1 \<noteq> p2 \<and> p2 \<noteq> p3 \<and> p1 \<noteq> p3
       \<and> level p1 = str ''/screen'' \<and> level p2 = str ''/ebook'' \<and> level p3 = str ''/printer''
       \<and> parse_decimal (imageResolution p1) = 72
       \<and> parse_decimal (imageResolution p2) = 150
       \<and> parse_decimal (imageResolution p3) = 300
       \<and> parse_decimal (imageResolution p1) < parse_decimal (imageResolution p2)
       \<and> parse_decimal (imageResolution p2) < parse_decimal (imageResolution p3))
   \<and> (key \<notin> set (map fst compressionSettings) \<and> key \<notin> set object_prototype_keys
        \<longrightarrow> lookup_level key = Undefined)
   \<and> lookup_level (str ''bogus'') = Undefined
   \<and> compressionLevel None = str ''middle''"
proof -
  have keys: "map fst compressionSettings = [str ''little'', str ''middle'', str ''high'']"
    by (simp add: compressionSettings_def)
  have distinct_profiles:
    "\<lparr>level = str ''/screen'', imageResolution = str ''72''\<rparr>
       \<noteq> \<lparr>level = str ''/ebook'', imageResolution = str ''150''\<rparr>"
    "\<lparr>level = str ''/ebook'', imageResolution = str ''150''\<rparr>
       \<noteq> \<lparr>level = str ''/printer'', imageResolution = str ''300''\<rparr>"
    "\<lparr>level = str ''/screen'', imageResolution = str ''72''\<rparr>
       \<noteq> \<lparr>level = str ''/printer'', imageResolution = str ''300''\<rparr>"
    by (simp_all add: str_def ch_def)
  have bogus: "lookup_level (str ''bogus'') = Undefined"
    by (simp add: lookup_level_def compressionSettings_def object_prototype_keys_def
        str_def ch_def)
  have default: "compressionLevel None = str ''middle''"
    by (simp add: compressionLevel_def)
  have profiles: "\<exists>p1 p2 p3.
         lookup_level (str ''little'') = Profile p1
       \<and> lookup_level (str ''middle'') = Profile p2
       \<and> lookup_level (str ''high'') = Profile p3
       \<and> p1 \<noteq> p2 \<and> p2 \<noteq> p3 \<and> p1 \<noteq> p3
       \<and> level p1 = str ''/screen'' \<and> level p2 = str ''/ebook'' \<and> level p3 = str ''/printer''
       \<and> parse_decimal (imageResolution p1) = 72
       \<and> parse_decimal (imageResolution p2) = 150
       \<and> parse_decimal (imageResolution p3) = 300
       \<and> parse_decimal (imageResolution p1) < parse_decimal (imageResolution p2)
       \<and> parse_decimal (imageResolution p2) < parse_decimal (imageResolution p3)"
    using lookup_little lookup_middle lookup_high distinct_profiles
    by (simp add: parse_72 parse_150 parse_300)
  from keys profiles bogus default lookup_other show ?thesis
    by blast
qed

theorem C1_profile_table_witness:
  "str ''bogus'' \<notin> set (map fst compressionSettings)
   \<and> str ''bogus'' \<notin> set object_prototype_keys
   \<and> lookup_level (str ''bogus'') = Undefined"
proof -
  have a: "str ''bogus'' \<notin> set (map fst compressionSettings)"
    by (simp add: compressionSettings_def str_def ch_def)
  have b: "str ''bogus'' \<notin> set object_prototype_keys"
    by (simp add: object_prototype_keys_def str_def ch_def)
  from a b C1_profile_table [of "str ''bogus''"] show ?thesis
    by blast
qed

section \<open>The sanitized base name\<close>

lemma name_char_underscore: "name_char (ch CHR ''_'')"
  by (simp add: name_char_def)

lemma replace_unsafe_chars: "list_all name_char (replace_unsafe s)"
  by (induction s) (simp_all add: replace_unsafe_def name_char_underscore)

lemma set_collapse_underscores: "set (collapse_underscores s) \<subseteq> set s"
  by (induction s rule: collapse_underscores.induct) auto

lemma set_strip_underscores: "set (strip_underscores s) \<subseteq> set s"
proof -
  have "set (strip_underscores s) \<subseteq> set (dropWhile (\<lambda>c. c = ch CHR ''_'') s)"
    unfolding strip_underscores_def using set_dropWhileD by fastforce
  also have "\<dots> \<subseteq> set s"
    using set_dropWhileD by fastforce
  finally show ?thesis .
qed

lemma sanitizedBaseName_chars: "list_all name_char (sanitizedBaseName n)"
proof -
  have "set (sanitizedBaseName n) \<subseteq> set (replace_unsafe (baseName n))"
    unfolding sanitizedBaseName_def
    using set_strip_underscores set_collapse_underscores by blast
  then show ?thesis
    using replace_unsafe_chars [of "baseName n"] by (auto simp: list_all_iff)
qed

lemma default_name_chars: "list_all name_char (str ''compressed_document'')"
  by (simp add: name_char_def str_def ch_def)

lemma finalBaseName_chars: "list_all name_char (finalBaseName n)"
  using default_name_chars sanitizedBaseName_chars by (simp add: finalBaseName_def)

lemma finalBaseName_not_empty: "finalBaseName n \<noteq> []"
  by (simp add: finalBaseName_def str_def)

text \<open>
  Claim C2: for every file name the client supplies, the base name that the handler
  builds for the output file (\<open>finalBaseName\<close>, lines 562 to 585) is not empty and
  each of its code units is an ASCII letter, a digit, an underscore or a hyphen: it
  matches \<^verbatim>\<open>^[A-Za-z0-9_-]+$\<close>. The base name is a function of the client's file name
  alone: it reads neither the clock nor the file system.
\<close>

theorem C2_sanitized_name:
  "finalBaseName name \<noteq> [] \<and> list_all name_char (finalBaseName name)"
  using finalBaseName_not_empty finalBaseName_chars by simp

text \<open>The file names that the specification lists as edge cases.\<close>

lemma sanitize_examples:
  "finalBaseName (str '''') = str ''untitled''"
  "finalBaseName (str ''.'') = str ''compressed_document''"
  "finalBaseName (str ''...pdf'') = str ''compressed_document''"
  "finalBaseName (str ''my report (final).PDF'') = str ''my_report_final''"
  by code_simp+

section \<open>What the handler does, by case\<close>

lemma compress_pdf_no_file:
  "pdfFile req = None \<Longrightarrow> compress_pdf w req fs = ([Json 400 no_file_message], fs)"
  by (simp add: compress_pdf_def handler_def)

lemma compress_pdf_staged:
  "pdfFile req = Some f \<Longrightarrow>
   compress_pdf w req fs =
     handler w (Some (f, upload_path (upload_now w) (originalname f))) (levelField req)
       (insert (upload_path (upload_now w) (originalname f)) fs)"
  by (simp add: compress_pdf_def Let_def)

lemma handler_rejects:
  "\<not> truthy (lookup_level (compressionLevel field)) \<Longrightarrow>
   handler w (Some (f, p)) field fs = ([Unlink p, Json 400 invalid_level_message], fs - {p})"
  by (simp add: handler_def)

lemma handler_failure:
  "truthy (lookup_level (compressionLevel field)) \<Longrightarrow> gs_error w = Some message \<Longrightarrow>
   handler w (Some (f, p)) field fs =
     ([Exec (gsCommand (lookup_level (compressionLevel field))
               (outputPath (handler_now w) (originalname f)) p),
       Unlink p,
       Unlink (outputPath (handler_now w) (originalname f)),
       Json 500 (error_message (gs_stderr w) message)],
      (if gs_writes_output w then insert (outputPath (handler_now w) (originalname f)) fs
       else fs) - {p} - {outputPath (handler_now w) (originalname f)})"
  by (simp add: handler_def Let_def)

lemma handler_success:
  "truthy (lookup_level (compressionLevel field)) \<Longrightarrow> gs_error w = None \<Longrightarrow>
   handler w (Some (f, p)) field fs =
     ([Exec (gsCommand (lookup_level (compressionLevel field))
               (outputPath (handler_now w) (originalname f)) p),
       Unlink p,
       Download (outputPath (handler_now w) (originalname f))
         (outputFileName (handler_now w) (originalname f))
         (if outputPath (handler_now w) (originalname f)
               \<notin> (if gs_writes_output w
                   then insert (outputPath (handler_now w) (originalname f)) fs else fs) - {p}
          then Missing
          else if client_disconnects w then Aborted else Sent),
       Unlink (outputPath (handler_now w) (originalname f))],
      (if gs_writes_output w then insert (outputPath (handler_now w) (originalname f)) fs
       else fs) - {p} - {outputPath (handler_now w) (originalname f)})"
  by (simp add: handler_def Let_def)

lemma example_level_truthy:
  "truthy (lookup_level (compressionLevel (Some (str ''high''))))"
proof -
  have "compressionLevel (Some (str ''high'')) = str ''high''"
    by (simp add: compressionLevel_def str_def)
  then show ?thesis
    by (simp add: lookup_high)
qed

text \<open>
  Claim C3: a request with a file and an accepted level whose subprocess succeeds
  leaves neither its staged input file nor its output file behind, and no file that
  was not there before the request; both are unlinked whether the download is sent,
  the client disconnects (\<open>d\<close>) or nothing was there to send.
\<close>

theorem C3_success_cleanup:
  assumes "pdfFile req = Some f"
    and "truthy (lookup_level (compressionLevel (levelField req)))"
    and "gs_error w = None"
  shows "upload_path (upload_now w) (originalname f)
           \<notin> snd (compress_pdf (w\<lparr>client_disconnects := d\<rparr>) req fs)
       \<and> outputPath (handler_now w) (originalname f)
           \<notin> snd (compress_pdf (w\<lparr>client_disconnects := d\<rparr>) req fs)
       \<and> snd (compress_pdf (w\<lparr>client_disconnects := d\<rparr>) req fs) \<subseteq> fs
       \<and> Unlink (upload_path (upload_now w) (originalname f))
           \<in> set (fst (compress_pdf (w\<lparr>client_disconnects := d\<rparr>) req fs))
       \<and> Unlink (outputPath (handler_now w) (originalname f))
           \<in> set (fst (compress_pdf (w\<lparr>client_disconnects := d\<rparr>) req fs))"
proof -
  let ?w = "w\<lparr>client_disconnects := d\<rparr>"
  have ok: "gs_error ?w = None"
    using assms(3) by simp
  have "compress_pdf ?w req fs =
     handler ?w (Some (f, upload_path (upload_now w) (originalname f))) (levelField req)
       (insert (upload_path (upload_now w) (originalname f)) fs)"
    using compress_pdf_staged [OF assms(1), of ?w fs] by simp
  then show ?thesis
    using handler_success [OF assms(2) ok] by auto
qed

theorem C3_success_cleanup_witness:
  "upload_path (upload_now example_world) (originalname example_upload)
      \<notin> snd (compress_pdf (example_world\<lparr>client_disconnects := True\<rparr>) example_request {})
   \<and> outputPath (handler_now example_world) (originalname example_upload)
      \<notin> snd (compress_pdf (example_world\<lparr>client_disconnects := True\<rparr>) example_request {})
   \<and> snd (compress_pdf (example_world\<lparr>client_disconnects := True\<rparr>) example_request {}) = {}"
proof -
  have a: "pdfFile example_request = Some example_upload"
    by (simp add: example_request_def)
  have b: "truthy (lookup_level (compressionLevel (levelField example_request)))"
    using example_level_truthy by (simp add: example_request_def)
  have c: "gs_error example_world = None"
    by (simp add: example_world_def)
  from C3_success_cleanup [OF a b c, of True "{}"] show ?thesis
    by simp
qed

text \<open>
  Claim C4: when the subprocess fails (\<^verbatim>\<open>exec\<close> reports an error: a non-zero exit
  status or a failed launch), the handler answers 500 with a JSON message that ends
  with the captured stderr text, or with the error's own message when stderr is
  empty; it unlinks the output path and the staged input file, so neither remains
  and no file is left that was not there before the request.
\<close>

theorem C4_failure_response_and_cleanup:
  assumes "pdfFile req = Some f"
    and "truthy (lookup_level (compressionLevel (levelField req)))"
    and "gs_error w = Some message"
  shows "last (fst (compress_pdf w req fs)) =
           Json 500 (str ''Error compressing PDF. Ghostscript stderr: ''
                      @ (if gs_stderr w \<noteq> [] then gs_stderr w else message))
       \<and> map status_of (fst (compress_pdf w req fs)) = [None, None, None, Some 500]
       \<and> Unlink (outputPath (handler_now w) (originalname f)) \<in> set (fst (compress_pdf w req fs))
       \<and> Unlink (upload_path (upload_now w) (originalname f)) \<in> set (fst (compress_pdf w req fs))
       \<and> outputPath (handler_now w) (originalname f) \<notin> snd (compress_pdf w req fs)
       \<and> upload_path (upload_now w) (originalname f) \<notin> snd (compress_pdf w req fs)
       \<and> snd (compress_pdf w req fs) \<subseteq> fs"
proof -
  have "compress_pdf w req fs =
     handler w (Some (f, upload_path (upload_now w) (originalname f))) (levelField req)
       (insert (upload_path (upload_now w) (originalname f)) fs)"
    using compress_pdf_staged [OF assms(1)] .
  then show ?thesis
    using handler_failure [OF assms(2) assms(3)] by (auto simp: error_message_def)
qed

theorem C4_failure_response_and_cleanup_witness:
  "last (fst (compress_pdf
       (example_world\<lparr>gs_error := Some (str ''Command failed''), gs_stderr := str ''Error: /undefined in xyz''\<rparr>)
       example_request {})) =
     Json 500 (str ''Error compressing PDF. Ghostscript stderr: '' @ str ''Error: /undefined in xyz'')
   \<and> snd (compress_pdf
       (example_world\<lparr>gs_error := Some (str ''Command failed''), gs_stderr := str ''Error: /undefined in xyz''\<rparr>)
       example_request {}) = {}"
proof -
  let ?w = "example_world\<lparr>gs_error := Some (str ''Command failed''),
              gs_stderr := str ''Error: /undefined in xyz''\<rparr>"
  have a: "pdfFile example_request = Some example_upload"
    by (simp add: example_request_def)
  have b: "truthy (lookup_level (compressionLevel (levelField example_request)))"
    using example_level_truthy by (simp add: example_request_def)
  have c: "gs_error ?w = Some (str ''Command failed'')"
    by simp
  have d: "gs_stderr ?w \<noteq> []"
    by (simp add: str_def)
  from C4_failure_response_and_cleanup [OF a b c, of "{}"] d show ?thesis
    by simp
qed

text \<open>
  A level that the table does not have and \<^verbatim>\<open>Object.prototype\<close> does not have either
  is rejected: the staged upload is unlinked, the response is 400 with the message
  naming the three levels, no subprocess is started and no new file remains.
\<close>

lemma unknown_level_rejected:
  assumes "pdfFile req = Some f"
    and "lookup_level (compressionLevel (levelField req)) = Undefined"
  shows "compress_pdf w req fs =
           ([Unlink (upload_path (upload_now w) (originalname f)),
             Json 400 invalid_level_message],
            fs - {upload_path (upload_now w) (originalname f)})"
  using compress_pdf_staged [OF assms(1), of w fs] assms(2)
  by (simp add: handler_rejects)

lemma bogus_level_rejected:
  "compress_pdf w \<lparr>pdfFile = Some f, levelField = Some (str ''bogus'')\<rparr> {} =
     ([Unlink (upload_path (upload_now w) (originalname f)), Json 400 invalid_level_message],
      {})"
proof -
  have "compressionLevel (Some (str ''bogus'')) = str ''bogus''"
    by (simp add: compressionLevel_def str_def)
  moreover have "lookup_level (str ''bogus'') = Undefined"
    by (simp add: lookup_level_def compressionSettings_def object_prototype_keys_def
        str_def ch_def)
  ultimately show ?thesis
    using unknown_level_rejected [of "\<lparr>pdfFile = Some f, levelField = Some (str ''bogus'')\<rparr>" f w "{}"]
    by simp
qed

text \<open>
  Claim C5 fails for a level that names a member of \<^verbatim>\<open>Object.prototype\<close>. The level
  \<open>constructor\<close> is none of \<open>little\<close>, \<open>middle\<close>, \<open>high\<close>, yet
  \<^verbatim>\<open>compressionSettings['constructor']\<close> is the function \<^verbatim>\<open>Object\<close>, which is truthy:
  the handler sends no 400, starts Ghostscript with \<^verbatim>\<open>-dPDFSETTINGS=undefined\<close> and
  goes on to the download.
\<close>

theorem C5_inherited_level_not_rejected:
  "str ''constructor'' \<notin> set (map fst compressionSettings)
   \<and> lookup_level (compressionLevel (Some (str ''constructor''))) = Inherited
   \<and> map status_of (fst (compress_pdf example_world
        \<lparr>pdfFile = Some example_upload, levelField = Some (str ''constructor'')\<rparr> {}))
      = [None, None, None, None]
   \<and> map is_exec (fst (compress_pdf example_world
        \<lparr>pdfFile = Some example_upload, levelField = Some (str ''constructor'')\<rparr> {}))
      = [True, False, False, False]
   \<and> template_text Inherited level = str ''undefined''"
proof -
  let ?req = "\<lparr>pdfFile = Some example_upload, levelField = Some (str ''constructor'')\<rparr>"
  have own: "str ''constructor'' \<notin> set (map fst compressionSettings)"
    by (simp add: compressionSettings_def str_def ch_def)
  have "compressionLevel (Some (str ''constructor'')) = str ''constructor''"
    by (simp add: compressionLevel_def str_def)
  moreover have "lookup_level (str ''constructor'') = Inherited"
    by (simp add: lookup_level_def compressionSettings_def object_prototype_keys_def
        str_def ch_def)
  ultimately have inh: "lookup_level (compressionLevel (Some (str ''constructor''))) = Inherited"
    by simp
  then have t: "truthy (lookup_level (compressionLevel (levelField ?req)))"
    by simp
  have ok: "gs_error example_world = None"
    by (simp add: example_world_def)
  have "compress_pdf example_world ?req {} =
     handler example_world
       (Some (example_upload,
              upload_path (upload_now example_world) (originalname example_upload)))
       (levelField ?req)
       (insert (upload_path (upload_now example_world) (originalname example_upload)) {})"
    by (rule compress_pdf_staged) simp
  then have effects: "map status_of (fst (compress_pdf example_world ?req {})) = [None, None, None, None]
      \<and> map is_exec (fst (compress_pdf example_world ?req {})) = [True, False, False, False]"
    using handler_success [OF t ok] by simp
  have "template_text Inherited level = str ''undefined''"
    by (simp add: template_text_def)
  with own inh effects show ?thesis
    by blast
qed

text \<open>
  Claim C6, as the code has it: the handler does not look whether the output file
  exists. When Ghostscript exits with status zero and has written nothing, the handler
  still takes the success path: it calls \<^verbatim>\<open>res.download\<close> on the missing file and
  sends no error response.
\<close>

theorem C6_success_without_output:
  "gs_error (example_world\<lparr>gs_writes_output := False\<rparr>) = None
   \<and> fst (compress_pdf (example_world\<lparr>gs_writes_output := False\<rparr>) example_request {}) =
       [Exec (gsCommand (lookup_level (str ''high''))
                (outputPath 1700000000002 (originalname example_upload))
                (upload_path 1700000000000 (originalname example_upload))),
        Unlink (upload_path 1700000000000 (originalname example_upload)),
        Download (outputPath 1700000000002 (originalname example_upload))
          (outputFileName 1700000000002 (originalname example_upload)) Missing,
        Unlink (outputPath 1700000000002 (originalname example_upload))]"
proof -
  let ?w = "example_world\<lparr>gs_writes_output := False\<rparr>"
  have a: "pdfFile example_request = Some example_upload"
    by (simp add: example_request_def)
  have b: "truthy (lookup_level (compressionLevel (levelField example_request)))"
    using example_level_truthy by (simp add: example_request_def)
  have c: "gs_error ?w = None"
    by (simp add: example_world_def)
  have l: "compressionLevel (levelField example_request) = str ''high''"
    by (simp add: example_request_def compressionLevel_def str_def)
  have "compress_pdf ?w example_request {} =
     handler ?w (Some (example_upload, upload_path (upload_now ?w) (originalname example_upload)))
       (levelField example_request)
       (insert (upload_path (upload_now ?w) (originalname example_upload)) {})"
    using a by (rule compress_pdf_staged)
  then show ?thesis
    using handler_success [OF b c] c l by (simp add: example_world_def)
qed

text \<open>
  Claim C6, amended: for a request with a file and an accepted level, the handler
  takes the success path, on which it calls \<^verbatim>\<open>res.download\<close>, exactly when \<^verbatim>\<open>exec\<close>
  reports no error (exit status zero), whether or not the output file exists; it
  answers 500 exactly when \<^verbatim>\<open>exec\<close> reports an error.
\<close>

theorem C6_success_iff_no_exec_error:
  assumes "pdfFile req = Some f"
    and "truthy (lookup_level (compressionLevel (levelField req)))"
  shows "(list_ex is_download (fst (compress_pdf w req fs)) \<longleftrightarrow> gs_error w = None)
       \<and> (Some 500 \<in> set (map status_of (fst (compress_pdf w req fs))) \<longleftrightarrow> gs_error w \<noteq> None)"
proof -
  have staged: "compress_pdf w req fs =
     handler w (Some (f, upload_path (upload_now w) (originalname f))) (levelField req)
       (insert (upload_path (upload_now w) (originalname f)) fs)"
    using compress_pdf_staged [OF assms(1)] .
  show ?thesis
  proof (cases "gs_error w")
    case None
    then show ?thesis
      using staged handler_success [OF assms(2) None] by simp
  next
    case (Some message)
    then show ?thesis
      using staged handler_failure [OF assms(2) Some] by simp
  qed
qed

theorem C6_success_iff_no_exec_error_witness:
  "list_ex is_download (fst (compress_pdf example_world example_request {}))
   \<and> Some 500 \<notin> set (map status_of (fst (compress_pdf example_world example_request {})))"
proof -
  have a: "pdfFile example_request = Some example_upload"
    by (simp add: example_request_def)
  have b: "truthy (lookup_level (compressionLevel (levelField example_request)))"
    using example_level_truthy by (simp add: example_request_def)
  have c: "gs_error example_world = None"
    by (simp add: example_world_def)
  from C6_success_iff_no_exec_error [OF a b, of example_world "{}"] c show ?thesis
    by simp
qed

text \<open>
  Claim C9: a level field that is present and empty is not rejected. The empty string
  is falsy, so the handler takes the level \<open>middle\<close>, finds the \<open>/ebook\<close> profile at
  150 dpi, and treats the request as it treats one whose level field is \<open>middle\<close>
  or absent: it starts Ghostscript with that profile and sends no 400.
\<close>

theorem C9_empty_level_is_default:
  assumes "pdfFile req = Some f"
    and "levelField req = Some []"
  shows "lookup_level (compressionLevel (levelField req))
           = Profile \<lparr>level = str ''/ebook'', imageResolution = str ''150''\<rparr>
       \<and> compress_pdf w req fs = compress_pdf w (req\<lparr>levelField := Some (str ''middle'')\<rparr>) fs
       \<and> compress_pdf w req fs = compress_pdf w (req\<lparr>levelField := None\<rparr>) fs
       \<and> hd (fst (compress_pdf w req fs)) =
           Exec (gsCommand (Profile \<lparr>level = str ''/ebook'', imageResolution = str ''150''\<rparr>)
                   (outputPath (handler_now w) (originalname f))
                   (upload_path (upload_now w) (originalname f)))
       \<and> Some 400 \<notin> set (map status_of (fst (compress_pdf w req fs)))"
proof -
  have e: "compressionLevel (Some []) = str ''middle''"
    by (simp add: compressionLevel_def)
  have m: "compressionLevel (Some (str ''middle'')) = str ''middle''"
    by (simp add: compressionLevel_def)
  have n: "compressionLevel None = str ''middle''"
    by (simp add: compressionLevel_def)
  have p: "lookup_level (compressionLevel (levelField req))
             = Profile \<lparr>level = str ''/ebook'', imageResolution = str ''150''\<rparr>"
    using assms(2) e lookup_middle by simp
  then have t: "truthy (lookup_level (compressionLevel (levelField req)))"
    by simp
  have same: "handler w st (Some []) fs' = handler w st (Some (str ''middle'')) fs'"
    "handler w st (Some []) fs' = handler w st None fs'" for st fs'
    by (simp_all only: handler_def e m n)
  have staged: "compress_pdf w req fs =
     handler w (Some (f, upload_path (upload_now w) (originalname f))) (levelField req)
       (insert (upload_path (upload_now w) (originalname f)) fs)"
    using compress_pdf_staged [OF assms(1)] .
  have eq1: "compress_pdf w req fs = compress_pdf w (req\<lparr>levelField := Some (str ''middle'')\<rparr>) fs"
    using assms same(1) by (simp add: compress_pdf_def)
  have eq2: "compress_pdf w req fs = compress_pdf w (req\<lparr>levelField := None\<rparr>) fs"
    using assms same(2) by (simp add: compress_pdf_def)
  have run: "hd (fst (compress_pdf w req fs)) =
           Exec (gsCommand (Profile \<lparr>level = str ''/ebook'', imageResolution = str ''150''\<rparr>)
                   (outputPath (handler_now w) (originalname f))
                   (upload_path (upload_now w) (originalname f)))
       \<and> Some 400 \<notin> set (map status_of (fst (compress_pdf w req fs)))"
  proof (cases "gs_error w")
    case None
    then show ?thesis
      using staged handler_success [OF t None] p by simp
  next
    case (Some message)
    then show ?thesis
      using staged handler_failure [OF t Some] p by simp
  qed
  from p eq1 eq2 run show ?thesis
    by blast
qed

theorem C9_empty_level_is_default_witness:
  "hd (fst (compress_pdf example_world (example_request\<lparr>levelField := Some []\<rparr>) {})) =
     Exec (gsCommand (Profile \<lparr>level = str ''/ebook'', imageResolution = str ''150''\<rparr>)
             (outputPath (handler_now example_world) (originalname example_upload))
             (upload_path (upload_now example_world) (originalname example_upload)))
   \<and> Some 400 \<notin> set (map status_of
        (fst (compress_pdf example_world (example_request\<lparr>levelField := Some []\<rparr>) {})))"
proof -
  have a: "pdfFile (example_request\<lparr>levelField := Some []\<rparr>) = Some example_upload"
    by (simp add: example_request_def)
  have b: "levelField (example_request\<lparr>levelField := Some []\<rparr>) = Some []"
    by simp
  from C9_empty_level_is_default [OF a b, of example_world "{}"] show ?thesis
    by blast
qed

section \<open>Decimal numerals and the names of the output files\<close>

lemma small_nat_cases:
  "d < 10 \<Longrightarrow> d = 0 \<or> d = 1 \<or> d = 2 \<or> d = 3 \<or> d = 4 \<or> d = 5 \<or> d = 6 \<or> d = 7 \<or> d = 8 \<or> d = (9::nat)"
  by arith

lemma digit_value_digit: "d < 10 \<Longrightarrow> digit_value (digit d) = d"
  using small_nat_cases [of d] by (auto simp: digit_value_def digit_def)

lemma digit_is_digit: "d < 10 \<Longrightarrow> ch CHR ''0'' \<le> digit d \<and> digit d \<le> ch CHR ''9''"
  using small_nat_cases [of d] by (auto simp: digit_def ch_def)

lemma parse_decimal_snoc: "parse_decimal (s @ [c]) = 10 * parse_decimal s + digit_value c"
  by (simp add: parse_decimal_def)

lemma parse_decimal_digits: "parse_decimal (digits n) = n"
proof (induction n rule: digits.induct)
  case (1 n)
  show ?case
  proof (cases "n < 10")
    case True
    then show ?thesis
      by (subst digits.simps) (simp add: parse_decimal_def digit_value_digit)
  next
    case False
    then have "parse_decimal (digits (n div 10)) = n div 10"
      using "1.IH" by simp
    moreover have "digits n = digits (n div 10) @ [digit (n mod 10)]"
      using False by (subst digits.simps) simp
    ultimately show ?thesis
      by (simp add: parse_decimal_snoc digit_value_digit)
  qed
qed

lemma digits_inject: "digits a = digits b \<Longrightarrow> a = b"
  by (metis parse_decimal_digits)

lemma digits_not_empty: "digits n \<noteq> []"
  by (subst digits.simps) simp

lemma digits_chars: "list_all (\<lambda>c. ch CHR ''0'' \<le> c \<and> c \<le> ch CHR ''9'') (digits n)"
proof (induction n rule: digits.induct)
  case (1 n)
  show ?case
  proof (cases "n < 10")
    case True
    then show ?thesis
      using digit_is_digit [of n] by (subst digits.simps) simp
  next
    case False
    then have "list_all (\<lambda>c. ch CHR ''0'' \<le> c \<and> c \<le> ch CHR ''9'') (digits (n div 10))"
      using "1.IH" by simp
    moreover have "digits n = digits (n div 10) @ [digit (n mod 10)]"
      using False by (subst digits.simps) simp
    ultimately show ?thesis
      using digit_is_digit [of "n mod 10"] by simp
  qed
qed

lemma digits_no_minus: "ch CHR ''-'' \<notin> set (digits n)"
proof
  assume "ch CHR ''-'' \<in> set (digits n)"
  then have "ch CHR ''0'' \<le> ch CHR ''-''"
    using digits_chars [of n] by (auto simp: list_all_iff)
  then show False
    by (simp add: ch_def)
qed

lemma digits_name_chars: "list_all name_char (digits n)"
  using digits_chars [of n] by (auto simp: list_all_iff name_char_def)

lemma num_to_string_chars: "list_all name_char (num_to_string t)"
  using digits_name_chars by (simp add: num_to_string_def name_char_def)

text \<open>The time's digits end at the first hyphen after an optional sign.\<close>

lemma num_to_string_neg: "a < 0 \<Longrightarrow> num_to_string a = ch CHR ''-'' # digits (nat (- a))"
  by (simp add: num_to_string_def)

lemma num_to_string_pos: "\<not> a < 0 \<Longrightarrow> num_to_string a = digits (nat a)"
  by (simp add: num_to_string_def)

lemma split_at_first:
  "c \<notin> set xs \<Longrightarrow> c \<notin> set ys \<Longrightarrow> xs @ c # a = ys @ c # b \<Longrightarrow> xs = ys \<and> a = b"
proof (induction xs arbitrary: ys)
  case Nil
  then show ?case
    by (cases ys) auto
next
  case (Cons x xs)
  then show ?case
    by (cases ys) auto
qed

lemma digits_split:
  assumes "digits m @ ch CHR ''-'' # r = digits n @ ch CHR ''-'' # r'"
  shows "m = n \<and> r = r'"
proof -
  have "digits m = digits n \<and> r = r'"
    using digits_no_minus digits_no_minus assms by (rule split_at_first)
  then show ?thesis
    using digits_inject [of m n] by (simp only: simp_thms)
qed

lemma minus_is_no_digits: "ch CHR ''-'' # xs \<noteq> digits n @ ys"
proof
  assume eq: "ch CHR ''-'' # xs = digits n @ ys"
  obtain c cs where d: "digits n = c # cs"
    using digits_not_empty [of n] by (cases "digits n") auto
  have "c = ch CHR ''-''"
    using eq unfolding d by simp
  then show False
    using digits_no_minus [of n] unfolding d by simp
qed

lemma num_to_string_split:
  assumes "num_to_string a @ ch CHR ''-'' # r = num_to_string b @ ch CHR ''-'' # r'"
  shows "a = b \<and> r = r'"
proof (cases "a < 0")
  case True
  note a = this
  show ?thesis
  proof (cases "b < 0")
    case True
    have "digits (nat (- a)) @ ch CHR ''-'' # r = digits (nat (- b)) @ ch CHR ''-'' # r'"
      using assms unfolding num_to_string_neg [OF a] num_to_string_neg [OF True]
      by (simp only: append_Cons list.inject simp_thms)
    then have "nat (- a) = nat (- b) \<and> r = r'"
      by (rule digits_split)
    then show ?thesis
      using a True by auto
  next
    case False
    have "ch CHR ''-'' # (digits (nat (- a)) @ ch CHR ''-'' # r) = digits (nat b) @ ch CHR ''-'' # r'"
      using assms unfolding num_to_string_neg [OF a] num_to_string_pos [OF False]
      by (simp only: append_Cons)
    then show ?thesis
      using minus_is_no_digits by blast
  qed
next
  case False
  note a = this
  show ?thesis
  proof (cases "b < 0")
    case True
    have "ch CHR ''-'' # (digits (nat (- b)) @ ch CHR ''-'' # r') = digits (nat a) @ ch CHR ''-'' # r"
      using assms unfolding num_to_string_neg [OF True] num_to_string_pos [OF a]
      by (simp only: append_Cons)
    then show ?thesis
      using minus_is_no_digits by blast
  next
    case False
    have "digits (nat a) @ ch CHR ''-'' # r = digits (nat b) @ ch CHR ''-'' # r'"
      using assms unfolding num_to_string_pos [OF a] num_to_string_pos [OF False] .
    then have "nat a = nat b \<and> r = r'"
      by (rule digits_split)
    then show ?thesis
      using a False by auto
  qed
qed

lemma outputPath_eq_iff:
  "outputPath t1 n1 = outputPath t2 n2 \<longleftrightarrow> t1 = t2 \<and> finalBaseName n1 = finalBaseName n2"
proof
  assume "outputPath t1 n1 = outputPath t2 n2"
  then have "num_to_string t1 @ ch CHR ''-'' # (finalBaseName n1 @ str ''.pdf'')
           = num_to_string t2 @ ch CHR ''-'' # (finalBaseName n2 @ str ''.pdf'')"
    by (simp add: outputPath_def outputFileName_def str_def)
  then have "t1 = t2 \<and> finalBaseName n1 @ str ''.pdf'' = finalBaseName n2 @ str ''.pdf''"
    by (rule num_to_string_split)
  then show "t1 = t2 \<and> finalBaseName n1 = finalBaseName n2"
    by simp
next
  assume "t1 = t2 \<and> finalBaseName n1 = finalBaseName n2"
  then show "outputPath t1 n1 = outputPath t2 n2"
    by (simp add: outputPath_def outputFileName_def)
qed

text \<open>
  Claim C8, as the code has it: the name of the output file is made of the
  handler's reading of the clock, in milliseconds, and the sanitized base name, and of
  nothing else. Two different requests that the handler names in the same millisecond
  and whose file names sanitize to the same base get the same output path, and the
  cleanup of the first deletes the file that the second one's Ghostscript has written
  there.
\<close>

theorem C8_same_millisecond_same_path:
  "\<lparr>pdfFile = Some \<lparr>originalname = str ''a b.pdf'', mimetype = str ''application/pdf'',
                       content = [1]\<rparr>, levelField = Some (str ''high'')\<rparr>
     \<noteq> \<lparr>pdfFile = Some \<lparr>originalname = str ''a_b.pdf'', mimetype = str ''application/pdf'',
                       content = [2]\<rparr>, levelField = Some (str ''little'')\<rparr>
   \<and> outputPath 1700000000002 (str ''a b.pdf'') = outputPath 1700000000002 (str ''a_b.pdf'')
   \<and> outputPath 1700000000002 (str ''a_b.pdf'')
       \<notin> snd (compress_pdf example_world
                \<lparr>pdfFile = Some \<lparr>originalname = str ''a b.pdf'',
                    mimetype = str ''application/pdf'', content = [1]\<rparr>,
                 levelField = Some (str ''high'')\<rparr>
                {outputPath 1700000000002 (str ''a_b.pdf'')})"
proof -
  let ?f = "\<lparr>originalname = str ''a b.pdf'', mimetype = str ''application/pdf'',
             content = [1]\<rparr>"
  let ?req = "\<lparr>pdfFile = Some ?f, levelField = Some (str ''high'')\<rparr>"
  have base: "finalBaseName (str ''a b.pdf'') = finalBaseName (str ''a_b.pdf'')"
    by code_simp
  then have same: "outputPath 1700000000002 (str ''a b.pdf'') = outputPath 1700000000002 (str ''a_b.pdf'')"
    by (simp add: outputPath_def outputFileName_def)
  have t: "truthy (lookup_level (compressionLevel (levelField ?req)))"
    using example_level_truthy by simp
  have ok: "gs_error example_world = None"
    by (simp add: example_world_def)
  have now: "handler_now example_world = 1700000000002"
    by (simp add: example_world_def)
  have "compress_pdf example_world ?req {outputPath 1700000000002 (str ''a_b.pdf'')} =
     handler example_world (Some (?f, upload_path (upload_now example_world) (originalname ?f)))
       (levelField ?req)
       (insert (upload_path (upload_now example_world) (originalname ?f))
          {outputPath 1700000000002 (str ''a_b.pdf'')})"
    by (rule compress_pdf_staged) simp
  then have gone: "outputPath 1700000000002 (str ''a_b.pdf'')
      \<notin> snd (compress_pdf example_world ?req {outputPath 1700000000002 (str ''a_b.pdf'')})"
    using handler_success [OF t ok] now same by simp
  have "?req \<noteq> \<lparr>pdfFile = Some \<lparr>originalname = str ''a_b.pdf'',
          mimetype = str ''application/pdf'', content = [2]\<rparr>,
        levelField = Some (str ''little'')\<rparr>"
    by simp
  with same gone show ?thesis
    by blast
qed

text \<open>
  Claim C8, amended: two requests get the same output path exactly when the handler
  reads the same millisecond from the clock for both and their file names sanitize to
  the same base name; so the output paths of two requests are distinct whenever the
  two readings of the clock differ or the sanitized base names differ.
\<close>

theorem C8_output_paths_equal_iff:
  "outputPath t1 name1 = outputPath t2 name2
     \<longleftrightarrow> t1 = t2 \<and> finalBaseName name1 = finalBaseName name2"
  by (rule outputPath_eq_iff)

section \<open>The command that Ghostscript receives\<close>

lemma sh_scan_append:
  "sh_scan s (xs @ ys) = (case sh_scan s xs of None \<Rightarrow> None | Some s' \<Rightarrow> sh_scan s' ys)"
  by (induction xs arbitrary: s) (simp_all split: option.splits)

lemma sh_plain_not_dquote: "sh_plain c \<Longrightarrow> c \<noteq> dquote"
proof
  assume "sh_plain c" and "c = dquote"
  then have "sh_plain dquote"
    by simp
  then show False
    by (simp add: sh_plain_def name_char_def dquote_def ch_def)
qed

lemma sh_step_plain:
  "sh_plain c \<Longrightarrow>
   sh_step \<lparr>done_words = ws, current = Some a, in_quotes = q\<rparr> c
     = Some \<lparr>done_words = ws, current = Some (a @ [c]), in_quotes = q\<rparr>"
  using sh_plain_not_dquote [of c] by (simp add: sh_step_def current_word_def)

lemma sh_scan_plain:
  "list_all sh_plain xs \<Longrightarrow>
   sh_scan \<lparr>done_words = ws, current = Some a, in_quotes = q\<rparr> xs
     = Some \<lparr>done_words = ws, current = Some (a @ xs), in_quotes = q\<rparr>"
  by (induction xs arbitrary: a) (simp_all add: sh_step_plain)

text \<open>The end of the command: two quoted paths of plain characters.\<close>

lemma sh_words_quoted_paths:
  assumes pre: "sh_scan \<lparr>done_words = [], current = None, in_quotes = False\<rparr> pre
                  = Some \<lparr>done_words = ws, current = Some a, in_quotes = True\<rparr>"
    and out: "list_all sh_plain outPath"
    and inp: "list_all sh_plain inputPath"
  shows "sh_words (pre @ outPath @ [dquote] @ str '' '' @ [dquote] @ inputPath @ [dquote])
           = Some (ws @ [a @ outPath, inputPath])"
proof -
  have between: "sh_scan \<lparr>done_words = ws, current = Some (a @ outPath), in_quotes = True\<rparr>
                   ([dquote] @ str '' '' @ [dquote])
                 = Some \<lparr>done_words = ws @ [a @ outPath], current = Some [], in_quotes = True\<rparr>"
    by (simp add: sh_step_def current_word_def sh_plain_def name_char_def dquote_def
        space_def str_def ch_def)
  have closing: "sh_scan \<lparr>done_words = ws @ [a @ outPath], current = Some inputPath, in_quotes = True\<rparr>
                   [dquote]
                 = Some \<lparr>done_words = ws @ [a @ outPath], current = Some inputPath, in_quotes = False\<rparr>"
    by (simp add: sh_step_def current_word_def)
  have "sh_scan \<lparr>done_words = [], current = None, in_quotes = False\<rparr>
          (pre @ outPath @ ([dquote] @ str '' '' @ [dquote]) @ inputPath @ [dquote])
        = Some \<lparr>done_words = ws @ [a @ outPath], current = Some inputPath, in_quotes = False\<rparr>"
    using pre sh_scan_plain [OF out, of ws a True] between
      sh_scan_plain [OF inp, of "ws @ [a @ outPath]" "[]" True] closing
    by (simp only: sh_scan_append option.case append_Nil)
  then show ?thesis
    by (simp add: sh_words_def)
qed

text \<open>The start of the command, for each of the three profiles.\<close>

lemma sh_scan_command_screen:
  "sh_scan \<lparr>done_words = [], current = None, in_quotes = False\<rparr>
     (str ''gs -sDEVICE=pdfwrite -dCompatibilityLevel=1.4 '' @ indent
      @ str ''-dPDFSETTINGS='' @ str ''/screen'' @ str '' '' @ indent
      @ str ''-dNOPAUSE -dQUIET -dBATCH '' @ indent
      @ str ''-dDetectDuplicateImages=true '' @ indent
      @ str ''-dColorImageResolution='' @ str ''72'' @ str '' '' @ indent
      @ str ''-dGrayImageResolution='' @ str ''72'' @ str '' '' @ indent
      @ str ''-dMonoImageResolution='' @ str ''72'' @ str '' '' @ indent
      @ str ''-sOutputFile='' @ [dquote])
   = Some \<lparr>done_words =
        [str ''gs'', str ''-sDEVICE=pdfwrite'', str ''-dCompatibilityLevel=1.4'',
         str ''-dPDFSETTINGS='' @ str ''/screen'',
         str ''-dNOPAUSE'', str ''-dQUIET'', str ''-dBATCH'',
         str ''-dDetectDuplicateImages=true'',
         str ''-dColorImageResolution='' @ str ''72'',
         str ''-dGrayImageResolution='' @ str ''72'',
         str ''-dMonoImageResolution='' @ str ''72''],
      current = Some (str ''-sOutputFile=''), in_quotes = True\<rparr>"
  by code_simp

lemma sh_scan_command_ebook:
  "sh_scan \<lparr>done_words = [], current = None, in_quotes = False\<rparr>
     (str ''gs -sDEVICE=pdfwrite -dCompatibilityLevel=1.4 '' @ indent
      @ str ''-dPDFSETTINGS='' @ str ''/ebook'' @ str '' '' @ indent
      @ str ''-dNOPAUSE -dQUIET -dBATCH '' @ indent
      @ str ''-dDetectDuplicateImages=true '' @ indent
      @ str ''-dColorImageResolution='' @ str ''150'' @ str '' '' @ indent
      @ str ''-dGrayImageResolution='' @ str ''150'' @ str '' '' @ indent
      @ str ''-dMonoImageResolution='' @ str ''150'' @ str '' '' @ indent
      @ str ''-sOutputFile='' @ [dquote])
   = Some \<lparr>done_words =
        [str ''gs'', str ''-sDEVICE=pdfwrite'', str ''-dCompatibilityLevel=1.4'',
         str ''-dPDFSETTINGS='' @ str ''/ebook'',
         str ''-dNOPAUSE'', str ''-dQUIET'', str ''-dBATCH'',
         str ''-dDetectDuplicateImages=true'',
         str ''-dColorImageResolution='' @ str ''150'',
         str ''-dGrayImageResolution='' @ str ''150'',
         str ''-dMonoImageResolution='' @ str ''150''],
      current = Some (str ''-sOutputFile=''), in_quotes = True\<rparr>"
  by code_simp

lemma sh_scan_command_printer:
  "sh_scan \<lparr>done_words = [], current = None, in_quotes = False\<rparr>
     (str ''gs -sDEVICE=pdfwrite -dCompatibilityLevel=1.4 '' @ indent
      @ str ''-dPDFSETTINGS='' @ str ''/printer'' @ str '' '' @ indent
      @ str ''-dNOPAUSE -dQUIET -dBATCH '' @ indent
      @ str ''-dDetectDuplicateImages=true '' @ indent
      @ str ''-dColorImageResolution='' @ str ''300'' @ str '' '' @ indent
      @ str ''-dGrayImageResolution='' @ str ''300'' @ str '' '' @ indent
      @ str ''-dMonoImageResolution='' @ str ''300'' @ str '' '' @ indent
      @ str ''-sOutputFile='' @ [dquote])
   = Some \<lparr>done_words =
        [str ''gs'', str ''-sDEVICE=pdfwrite'', str ''-dCompatibilityLevel=1.4'',
         str ''-dPDFSETTINGS='' @ str ''/printer'',
         str ''-dNOPAUSE'', str ''-dQUIET'', str ''-dBATCH'',
         str ''-dDetectDuplicateImages=true'',
         str ''-dColorImageResolution='' @ str ''300'',
         str ''-dGrayImageResolution='' @ str ''300'',
         str ''-dMonoImageResolution='' @ str ''300''],
      current = Some (str ''-sOutputFile=''), in_quotes = True\<rparr>"
  by code_simp

lemma lookup_level_profiles:
  assumes "lookup_level key = Profile s"
  shows "s = \<lparr>level = str ''/screen'', imageResolution = str ''72''\<rparr>
       \<or> s = \<lparr>level = str ''/ebook'', imageResolution = str ''150''\<rparr>
       \<or> s = \<lparr>level = str ''/printer'', imageResolution = str ''300''\<rparr>"
proof -
  have "map_of compressionSettings key = Some s"
    using assms by (simp add: lookup_level_def split: option.splits if_splits)
  then have "(key, s) \<in> set compressionSettings"
    by (rule map_of_SomeD)
  then show ?thesis
    by (auto simp: compressionSettings_def)
qed

lemma sh_words_gsCommand:
  assumes "lookup_level key = Profile s"
    and out: "list_all sh_plain outPath"
    and inp: "list_all sh_plain inputPath"
  shows "sh_words (gsCommand (Profile s) outPath inputPath) = Some (gs_arguments s outPath inputPath)"
proof -
  consider (screen) "s = \<lparr>level = str ''/screen'', imageResolution = str ''72''\<rparr>"
    | (ebook) "s = \<lparr>level = str ''/ebook'', imageResolution = str ''150''\<rparr>"
    | (printer) "s = \<lparr>level = str ''/printer'', imageResolution = str ''300''\<rparr>"
    using lookup_level_profiles [OF assms(1)] by blast
  then show ?thesis
  proof cases
    case screen
    show ?thesis
      using sh_words_quoted_paths [OF sh_scan_command_screen out inp]
      by (simp add: screen gsCommand_def gs_arguments_def template_text_def)
  next
    case ebook
    show ?thesis
      using sh_words_quoted_paths [OF sh_scan_command_ebook out inp]
      by (simp add: ebook gsCommand_def gs_arguments_def template_text_def)
  next
    case printer
    show ?thesis
      using sh_words_quoted_paths [OF sh_scan_command_printer out inp]
      by (simp add: printer gsCommand_def gs_arguments_def template_text_def)
  qed
qed

text \<open>Both paths in the command are made of plain characters only.\<close>

lemma name_char_plain: "list_all name_char xs \<Longrightarrow> list_all sh_plain xs"
  by (induction xs) (simp_all add: sh_plain_def)

lemma safeOriginalName_plain: "list_all sh_plain (safeOriginalName name)"
  by (induction name)
    (simp_all add: safeOriginalName_def sh_plain_def safe_char_def name_char_underscore)

lemma outputPath_plain: "list_all sh_plain (outputPath t name)"
proof -
  have "list_all sh_plain (str ''compressed_pdfs/'')" "list_all sh_plain (str ''compressed-'')"
    "list_all sh_plain (str ''-'')" "list_all sh_plain (str ''.pdf'')"
    by (simp_all add: sh_plain_def name_char_def str_def ch_def)
  then show ?thesis
    using name_char_plain [OF num_to_string_chars [of t]]
      name_char_plain [OF finalBaseName_chars [of name]]
    by (simp add: outputPath_def outputFileName_def)
qed

lemma upload_path_plain: "list_all sh_plain (upload_path t name)"
proof -
  have "list_all sh_plain (str ''uploads/'')" "list_all sh_plain (str ''-'')"
    by (simp_all add: sh_plain_def name_char_def str_def ch_def)
  then show ?thesis
    using name_char_plain [OF num_to_string_chars [of t]] safeOriginalName_plain [of name]
    by (simp add: upload_path_def multer_filename_def)
qed

text \<open>
  Claim C7: for every request with a file and a level of the table, the one command
  that the handler starts is read by the shell as exactly the fixed argument list:
  \<^verbatim>\<open>gs\<close>, the pdfwrite device, compatibility level 1.4, the profile's quality
  directive, \<^verbatim>\<open>-dNOPAUSE -dQUIET -dBATCH\<close>, duplicate-image detection, the profile's
  one resolution for colour, grey and mono images, the output path and the input path.
  Both paths stand in double quotes and hold only letters, digits and
  \<^verbatim>\<open>_ - . /\<close>, so nothing in them can end a word or start another command.
\<close>

theorem C7_command_is_fixed_argument_list:
  assumes "pdfFile req = Some f"
    and "lookup_level (compressionLevel (levelField req)) = Profile s"
  shows "filter is_exec (fst (compress_pdf w req fs)) =
           [Exec (gsCommand (Profile s) (outputPath (handler_now w) (originalname f))
                    (upload_path (upload_now w) (originalname f)))]
       \<and> sh_words (gsCommand (Profile s) (outputPath (handler_now w) (originalname f))
                    (upload_path (upload_now w) (originalname f)))
           = Some (gs_arguments s (outputPath (handler_now w) (originalname f))
                     (upload_path (upload_now w) (originalname f)))
       \<and> list_all sh_plain (outputPath (handler_now w) (originalname f))
       \<and> list_all sh_plain (upload_path (upload_now w) (originalname f))"
proof -
  have t: "truthy (lookup_level (compressionLevel (levelField req)))"
    using assms(2) by simp
  have staged: "compress_pdf w req fs =
     handler w (Some (f, upload_path (upload_now w) (originalname f))) (levelField req)
       (insert (upload_path (upload_now w) (originalname f)) fs)"
    using compress_pdf_staged [OF assms(1)] .
  have one: "filter is_exec (fst (compress_pdf w req fs)) =
           [Exec (gsCommand (Profile s) (outputPath (handler_now w) (originalname f))
                    (upload_path (upload_now w) (originalname f)))]"
  proof (cases "gs_error w")
    case None
    then show ?thesis
      using staged handler_success [OF t None] assms(2) by simp
  next
    case (Some message)
    then show ?thesis
      using staged handler_failure [OF t Some] assms(2) by simp
  qed
  from one sh_words_gsCommand [OF assms(2) outputPath_plain upload_path_plain]
    outputPath_plain upload_path_plain
  show ?thesis
    by blast
qed

theorem C7_command_is_fixed_argument_list_witness:
  "sh_words (gsCommand (Profile \<lparr>level = str ''/printer'', imageResolution = str ''300''\<rparr>)
       (outputPath (handler_now example_world) (originalname example_upload))
       (upload_path (upload_now example_world) (originalname example_upload)))
     = Some (gs_arguments \<lparr>level = str ''/printer'', imageResolution = str ''300''\<rparr>
          (outputPath (handler_now example_world) (originalname example_upload))
          (upload_path (upload_now example_world) (originalname example_upload)))"
proof -
  have a: "pdfFile example_request = Some example_upload"
    by (simp add: example_request_def)
  have "compressionLevel (levelField example_request) = str ''high''"
    by (simp add: example_request_def compressionLevel_def str_def)
  then have b: "lookup_level (compressionLevel (levelField example_request))
      = Profile \<lparr>level = str ''/printer'', imageResolution = str ''300''\<rparr>"
    by (simp add: lookup_high)
  from C7_command_is_fixed_argument_list [OF a b, of example_world "{}"] show ?thesis
    by blast
qed

section \<open>The route with multer in front of the handler\<close>

lemma post_compress_pdf_staged:
  "stage w req = Staged f p \<Longrightarrow>
   post_compress_pdf w req fs = handler w (Some (f, p)) (levelField req) (insert p fs)"
  by (simp add: post_compress_pdf_def)

lemma stage_Staged:
  assumes "pdfFile req = Some part"
    and "stage w req = Staged f p"
  shows "f = part\<lparr>originalname := busboy_basename (originalname part)\<rparr>
       \<and> p = upload_path (upload_now w) (originalname f)
       \<and> originalname f \<noteq> []
       \<and> length (multer_filename (upload_now w) (originalname f)) \<le> NAME_MAX"
  using assms by (auto simp: stage_def Let_def split: if_splits)

text \<open>Once multer has accepted the upload, the route is the pipeline of
  \<open>compress_pdf\<close> on the request that the handler sees.\<close>

lemma post_compress_pdf_accepted:
  assumes "stage w req = Staged f p"
  shows "post_compress_pdf w req fs = compress_pdf w (req\<lparr>pdfFile := Some f\<rparr>) fs"
proof -
  obtain part where part: "pdfFile req = Some part"
    using assms by (cases "pdfFile req") (simp_all add: stage_def)
  have "p = upload_path (upload_now w) (originalname f)"
    using stage_Staged [OF part assms] by simp
  then show ?thesis
    using post_compress_pdf_staged [OF assms, of fs] by (simp add: compress_pdf_def Let_def)
qed

lemma busboy_basename_plain:
  assumes "ch CHR ''/'' \<notin> set name" and "ch (CHR 0x5C) \<notin> set name"
    and "name \<noteq> str ''..''" and "name \<noteq> str ''.''"
  shows "busboy_basename name = name"
proof -
  have whole: "takeWhile (\<lambda>c. c \<noteq> ch CHR ''/'' \<and> c \<noteq> ch (CHR 0x5C)) (rev name) = rev name"
    using assms(1,2) by (auto simp: takeWhile_eq_all_conv)
  show ?thesis
    unfolding busboy_basename_def whole using assms(3,4) by (simp add: Let_def)
qed

lemma multer_filename_length:
  "length (multer_filename t name) = length (num_to_string t) + 1 + length name"
  by (simp add: multer_filename_def safeOriginalName_def str_def)

lemma example_time_digits: "num_to_string 1700000000000 = str ''1700000000000''"
  by (simp add: num_to_string_def digits.simps digit_def str_def ch_def)

lemma num_to_string_not_empty: "num_to_string t \<noteq> []"
  using digits_not_empty by (simp add: num_to_string_def)

text \<open>With a level of the table and a subprocess without error, the handler starts one
  subprocess for every upload that reaches it, and sends no error.\<close>

lemma handler_one_exec:
  assumes "lookup_level (compressionLevel field) = Profile s"
  shows "filter is_exec (fst (handler w (Some (f, p)) field fs)) =
           [Exec (gsCommand (Profile s) (outputPath (handler_now w) (originalname f)) p)]
       \<and> Some 400 \<notin> set (map status_of (fst (handler w (Some (f, p)) field fs)))
       \<and> (Some 500 \<in> set (map status_of (fst (handler w (Some (f, p)) field fs)))
            \<longleftrightarrow> gs_error w \<noteq> None)"
proof -
  have t: "truthy (lookup_level (compressionLevel field))"
    using assms by simp
  show ?thesis
  proof (cases "gs_error w")
    case None
    then show ?thesis
      using handler_success [OF t None, of f p fs] assms by simp
  next
    case (Some message)
    then show ?thesis
      using handler_failure [OF t Some, of f p fs] assms by simp
  qed
qed

lemma handler_ignores_type_and_content:
  assumes "lookup_level (compressionLevel field) = Profile s"
  shows "fst (handler w (Some (f\<lparr>mimetype := m, content := c\<rparr>, p)) field fs)
           = fst (handler w (Some (f, p)) field fs)"
proof -
  have t: "truthy (lookup_level (compressionLevel field))"
    using assms by simp
  show ?thesis
  proof (cases "gs_error w")
    case None
    then show ?thesis
      using handler_success [OF t None, of f p fs]
        handler_success [OF t None, of "f\<lparr>mimetype := m, content := c\<rparr>" p fs]
      by simp
  next
    case (Some message)
    then show ?thesis
      using handler_failure [OF t Some, of f p fs]
        handler_failure [OF t Some, of "f\<lparr>mimetype := m, content := c\<rparr>" p fs]
      by simp
  qed
qed

text \<open>
  Claim C10, as the code has it: not every uploaded file reaches a subprocess.
  \<^verbatim>\<open>upload.single\<close> skips a file part that the client has named \<^verbatim>\<open>.\<close>, so the
  request gets the 400 of a request without a file although it carries a file and the
  level \<open>high\<close>; and it fails to write a file whose name has 258 characters, so that
  request gets a 500 although no subprocess has failed. In neither case is a
  subprocess started.
\<close>

theorem C10_upload_dropped_before_handler:
  "lookup_level (compressionLevel (Some (str ''high'')))
     = Profile \<lparr>level = str ''/printer'', imageResolution = str ''300''\<rparr>
   \<and> gs_error example_world = None
   \<and> fst (post_compress_pdf example_world
        \<lparr>pdfFile = Some \<lparr>originalname = str ''.'', mimetype = str ''application/pdf'',
                          content = [0x25, 0x50, 0x44, 0x46]\<rparr>,
         levelField = Some (str ''high'')\<rparr> {})
      = [Json 400 no_file_message]
   \<and> fst (post_compress_pdf example_world
        \<lparr>pdfFile = Some \<lparr>originalname = replicate 254 (ch CHR ''a'') @ str ''.pdf'',
                          mimetype = str ''application/pdf'',
                          content = [0x25, 0x50, 0x44, 0x46]\<rparr>,
         levelField = Some (str ''high'')\<rparr> {})
      = [ErrorPage 500]"
proof -
  let ?long = "replicate 254 (ch CHR ''a'') @ str ''.pdf''"
  have "compressionLevel (Some (str ''high'')) = str ''high''"
    by (simp add: compressionLevel_def str_def)
  then have level: "lookup_level (compressionLevel (Some (str ''high'')))
      = Profile \<lparr>level = str ''/printer'', imageResolution = str ''300''\<rparr>"
    by (simp add: lookup_high)
  have ok: "gs_error example_world = None"
    by (simp add: example_world_def)
  have "busboy_basename (str ''.'') = []"
    by (simp add: busboy_basename_def str_def ch_def)
  then have dot: "fst (post_compress_pdf example_world
        \<lparr>pdfFile = Some \<lparr>originalname = str ''.'', mimetype = str ''application/pdf'',
                          content = [0x25, 0x50, 0x44, 0x46]\<rparr>,
         levelField = Some (str ''high'')\<rparr> {})
      = [Json 400 no_file_message]"
    by (simp add: post_compress_pdf_def stage_def handler_def)
  have "ch CHR ''/'' \<notin> set ?long" "ch (CHR 0x5C) \<notin> set ?long"
    by (simp_all add: str_def ch_def)
  moreover have "length ?long = 258"
    by (simp add: str_def)
  then have "?long \<noteq> str ''..''" "?long \<noteq> str ''.''"
    by (auto simp: str_def)
  ultimately have base: "busboy_basename ?long = ?long"
    by (rule busboy_basename_plain)
  have "length (num_to_string (upload_now example_world)) \<noteq> 0"
    using num_to_string_not_empty by simp
  then have "NAME_MAX < length (multer_filename (upload_now example_world) ?long)"
    by (simp add: multer_filename_length NAME_MAX_def str_def)
  moreover have "?long \<noteq> []"
    by (simp add: str_def)
  ultimately have long: "fst (post_compress_pdf example_world
        \<lparr>pdfFile = Some \<lparr>originalname = ?long, mimetype = str ''application/pdf'',
                          content = [0x25, 0x50, 0x44, 0x46]\<rparr>,
         levelField = Some (str ''high'')\<rparr> {})
      = [ErrorPage 500]"
    using base by (simp add: post_compress_pdf_def stage_def Let_def)
  from level ok dot long show ?thesis
    by blast
qed

text \<open>
  Claim C10, amended: the server looks neither at the extension nor at the declared
  content type nor at the bytes of an upload. For every upload that multer hands to
  the handler, that is, whose name busboy does not reduce to the empty string and
  whose staged name is no longer than \<open>NAME_MAX\<close>, a request whose level the table
  has starts exactly one subprocess, on the path at which that upload was staged; the
  effects are the same for every content type and content; no 400 is sent, and a 500
  is sent exactly when the subprocess reports an error.
\<close>

theorem C10_accepted_upload_one_subprocess:
  assumes "pdfFile req = Some part"
    and "stage w req = Staged f p"
    and "lookup_level (compressionLevel (levelField req)) = Profile s"
  shows "filter is_exec (fst (post_compress_pdf w req fs)) =
           [Exec (gsCommand (Profile s) (outputPath (handler_now w) (originalname f)) p)]
       \<and> originalname f = busboy_basename (originalname part)
       \<and> p = upload_path (upload_now w) (originalname f)
       \<and> fst (post_compress_pdf w (req\<lparr>pdfFile := Some (part\<lparr>mimetype := m, content := c\<rparr>)\<rparr>) fs)
           = fst (post_compress_pdf w req fs)
       \<and> Some 400 \<notin> set (map status_of (fst (post_compress_pdf w req fs)))
       \<and> (Some 500 \<in> set (map status_of (fst (post_compress_pdf w req fs)))
            \<longleftrightarrow> gs_error w \<noteq> None)"
proof -
  let ?req' = "req\<lparr>pdfFile := Some (part\<lparr>mimetype := m, content := c\<rparr>)\<rparr>"
  have shape: "f = part\<lparr>originalname := busboy_basename (originalname part)\<rparr>
       \<and> p = upload_path (upload_now w) (originalname f)"
    using stage_Staged [OF assms(1) assms(2)] by simp
  have run: "post_compress_pdf w req fs = handler w (Some (f, p)) (levelField req) (insert p fs)"
    using assms(2) by (rule post_compress_pdf_staged)
  have "stage w ?req' = Staged (f\<lparr>mimetype := m, content := c\<rparr>) p"
    using assms(1) assms(2) by (auto simp: stage_def Let_def split: if_splits)
  then have "post_compress_pdf w ?req' fs
      = handler w (Some (f\<lparr>mimetype := m, content := c\<rparr>, p)) (levelField ?req') (insert p fs)"
    by (rule post_compress_pdf_staged)
  then have same: "fst (post_compress_pdf w ?req' fs) = fst (post_compress_pdf w req fs)"
    using run handler_ignores_type_and_content [OF assms(3)] by simp
  from shape run same handler_one_exec [OF assms(3), of w f p "insert p fs"] show ?thesis
    by simp
qed

theorem C10_accepted_upload_one_subprocess_witness:
  "filter is_exec (fst (post_compress_pdf (example_world\<lparr>upload_now := 1700000000000\<rparr>)
       \<lparr>pdfFile = Some \<lparr>originalname = str ''notes.txt'', mimetype = str ''text/plain'',
                         content = [0x68, 0x69]\<rparr>,
        levelField = Some (str ''high'')\<rparr> {})) =
     [Exec (gsCommand (Profile \<lparr>level = str ''/printer'', imageResolution = str ''300''\<rparr>)
        (outputPath (handler_now example_world) (str ''notes.txt''))
        (upload_path 1700000000000 (str ''notes.txt'')))]"
proof -
  let ?part = "\<lparr>originalname = str ''notes.txt'', mimetype = str ''text/plain'',
                content = [0x68, 0x69]\<rparr>"
  let ?req = "\<lparr>pdfFile = Some ?part, levelField = Some (str ''high'')\<rparr>"
  let ?w = "example_world\<lparr>upload_now := 1700000000000\<rparr>"
  have a: "pdfFile ?req = Some ?part"
    by simp
  have base: "busboy_basename (str ''notes.txt'') = str ''notes.txt''"
    by (rule busboy_basename_plain) (simp_all add: str_def ch_def)
  have "length (multer_filename 1700000000000 (str ''notes.txt'')) \<le> NAME_MAX"
    by (simp add: multer_filename_length example_time_digits NAME_MAX_def str_def)
  moreover have "str ''notes.txt'' \<noteq> []"
    by (simp add: str_def)
  ultimately have b: "stage ?w ?req = Staged ?part (upload_path 1700000000000 (str ''notes.txt''))"
    using base by (simp add: stage_def Let_def)
  have "compressionLevel (levelField ?req) = str ''high''"
    by (simp add: compressionLevel_def str_def)
  then have l: "lookup_level (compressionLevel (levelField ?req))
      = Profile \<lparr>level = str ''/printer'', imageResolution = str ''300''\<rparr>"
    by (simp add: lookup_high)
  from C10_accepted_upload_one_subprocess [OF a b l, of "{}"] show ?thesis
    by (simp add: example_world_def)
qed

section \<open>The first revision, for comparison\<close>

text \<open>
  The earlier revision does not have the properties proved above for the current one:
  its sanitizer keeps dots and can return the empty string, its staged path can hold a
  double quote or a dollar sign, which reach the shell inside the command, and after a
  failed subprocess it leaves the output file that Ghostscript has written.
\<close>

lemma v1_sanitizer_examples:
  "originalNameSanitized (str ''.pdf'') = []"
  "originalNameSanitized (str ''a.b.PDF'') = str ''a.b''"
  by code_simp+

lemma v1_upload_path_keeps_quote:
  "upload_path_v1 7 (str ''a b'' @ [dquote] @ str ''$(id).pdf'')
     = str ''uploads/7-a_b'' @ [dquote] @ str ''$(id).pdf''"
  by code_simp

lemma v1_failure_keeps_output:
  assumes "pdfFile req = Some f"
    and "truthy (lookup_level (compressionLevel (levelField req)))"
    and "gs_error w = Some message"
    and "gs_writes_output w"
  shows "str ''compressed_pdfs/'' @ outputFileName_v1 (handler_now w) (originalname f)
           \<in> snd (compress_pdf_v1 w req fs)
       \<and> map status_of (fst (compress_pdf_v1 w req fs)) = [None, None, Some 500]"
proof -
  have "str ''compressed_pdfs/'' @ a \<noteq> str ''uploads/'' @ b" for a b
    by (simp add: str_def ch_def)
  then show ?thesis
    using assms by (simp add: compress_pdf_v1_def handler_v1_def upload_path_v1_def Let_def)
qed

end
